theory Spec2Isabelle
  imports Main "HOL-Library.Char_ord" "HOL-Library.List_Lexorder"
begin

section \<open>The release catalog of ALT Media Writer (src/app/releasemanager.cpp)\<close>

text \<open>
  The catalog is the tree ReleaseManager, Release, ReleaseVersion, ReleaseVariant of
  \<^verbatim>\<open>releasemanager.h\<close>. The C++ objects are heap objects held by pointer in
  \<^verbatim>\<open>QList\<close>s; each object is owned by exactly one list, so the tree is modelled by
  value: a record per class, a list per \<^verbatim>\<open>QList\<close>, and every mutating member function
  returns the updated object together with the signals it emitted, in emission order.

  A \<^verbatim>\<open>QString\<close> is a \<^typ>\<open>string\<close>; the comparison \<open><\<close> on strings is the
  lexicographic order of the code units (a proper prefix is smaller), which is what
  \<^verbatim>\<open>QString::operator<\<close> computes. Letter case and white space are those of ASCII.
\<close>

subsection \<open>QString and QList operations\<close>

definition toLower_char :: "char \<Rightarrow> char" where
  "toLower_char c =
     (case map_of (zip ''ABCDEFGHIJKLMNOPQRSTUVWXYZ'' ''abcdefghijklmnopqrstuvwxyz'') c of
        Some d \<Rightarrow> d
      | None \<Rightarrow> c)"

definition toLower :: "string \<Rightarrow> string" where
  "toLower s = map toLower_char s"

fun startsWith :: "string \<Rightarrow> string \<Rightarrow> bool" where
  "startsWith s [] = True"
| "startsWith [] (p # ps) = False"
| "startsWith (c # s) (p # ps) = (c = p \<and> startsWith s ps)"

text \<open>\<^verbatim>\<open>QString::contains(sub)\<close>, case sensitive: \<open>sub\<close> occurs in \<open>s\<close> as a substring.\<close>

fun qcontains :: "string \<Rightarrow> string \<Rightarrow> bool" where
  "qcontains [] sub = (sub = [])"
| "qcontains (c # s) sub = (startsWith (c # s) sub \<or> qcontains s sub)"

text \<open>\<^verbatim>\<open>QString::contains(sub, Qt::CaseInsensitive)\<close>.\<close>

definition qcontains_ci :: "string \<Rightarrow> string \<Rightarrow> bool" where
  "qcontains_ci s sub = qcontains (toLower s) (toLower sub)"

text \<open>\<^verbatim>\<open>QStringList::contains(str, Qt::CaseInsensitive)\<close>: some element equals \<open>str\<close> up to case.\<close>

definition qstringlist_contains_ci :: "string list \<Rightarrow> string \<Rightarrow> bool" where
  "qstringlist_contains_ci l str = list_ex (\<lambda>x. toLower x = toLower str) l"

definition isSpace :: "char \<Rightarrow> bool" where
  "isSpace c = (c \<in> set [CHR '' '', CHR 0x09, CHR 0x0A, CHR 0x0B, CHR 0x0C, CHR 0x0D])"

definition trimmed :: "string \<Rightarrow> string" where
  "trimmed s = rev (dropWhile isSpace (rev (dropWhile isSpace s)))"

text \<open>
  \<^verbatim>\<open>QList::insert(i, value)\<close> for \<open>i \<ge> 0\<close>: the value is appended when \<open>i\<close> is not
  below the size.
\<close>

definition qlist_insert :: "nat \<Rightarrow> 'a \<Rightarrow> 'a list \<Rightarrow> 'a list" where
  "qlist_insert i v xs = take i xs @ v # drop i xs"

definition qlist_removeAt :: "nat \<Rightarrow> 'a list \<Rightarrow> 'a list" where
  "qlist_removeAt i xs = take i xs @ drop (Suc i) xs"

text \<open>
  The loop \<^verbatim>\<open>for (i = 0; i < n; i++) if (P(list[i])) return ...\<close>: the index at
  which it returns, if it does.
\<close>

fun first_index :: "('a \<Rightarrow> bool) \<Rightarrow> 'a list \<Rightarrow> nat option" where
  "first_index P [] = None"
| "first_index P (x # xs) = (if P x then Some 0 else map_option Suc (first_index P xs))"

subsection \<open>Data model\<close>

text \<open>\<^verbatim>\<open>QDateTime\<close>: only validity and equality are used by the catalog.\<close>

datatype QDateTime = InvalidDateTime | ValidDateTime int

fun isValid :: "QDateTime \<Rightarrow> bool" where
  "isValid InvalidDateTime = False"
| "isValid (ValidDateTime t) = True"

datatype ImageTypeId =
  ISO | TAR | TAR_GZ | TAR_XZ | IMG | IMG_GZ | IMG_XZ | RECOVERY_TAR | UNKNOWN_IMAGE_TYPE | COUNT

text \<open>\<^verbatim>\<open>ReleaseVersion::Status\<close>, with the enumerators' values.\<close>

datatype Status = FINAL | RELEASE_CANDIDATE | BETA | ALPHA

fun status_value :: "Status \<Rightarrow> nat" where
  "status_value FINAL = 0"
| "status_value RELEASE_CANDIDATE = 1"
| "status_value BETA = 2"
| "status_value ALPHA = 3"

datatype VariantStatus =
  PREPARING | DOWNLOADING | RESUMING | DOWNLOAD_VERIFYING | READY | WRITING_NOT_POSSIBLE
| WRITING | WRITE_VERIFYING | FINISHED | FAILED_VERIFICATION | FAILED_DOWNLOAD | FAILED

text \<open>
  The signals that the catalog emits. \<open>statusChanged\<close> is the signal of
  \<^verbatim>\<open>ReleaseVersion\<close> (the merge never touches the transfer status of a variant),
  \<open>prereleaseChanged\<close> that of \<^verbatim>\<open>Release\<close>, \<open>variantChanged\<close> that of the manager.
\<close>

datatype Signal =
  versionsChanged | selectedVersionChanged | prereleaseChanged
| variantsChanged | selectedVariantChanged | statusChanged | releaseDateChanged
| urlChanged | shaHashChanged | sizeChanged | realSizeChanged | variantChanged

text \<open>
  A \<^verbatim>\<open>ReleaseArchitecture *\<close> points into the static array \<open>m_all\<close>, so it is the index of
  the entry, or \<open>None\<close> for \<^verbatim>\<open>nullptr\<close>. \<open>m_size\<close> and \<open>m_realSize\<close> are
  \<^verbatim>\<open>int64_t\<close>; the catalog only compares them, so they are integers here.
\<close>

record ReleaseVariant =
  m_image :: string
  m_arch :: "nat option"
  m_image_type :: ImageTypeId
  m_board :: string
  m_url :: string
  m_shaHash :: string
  m_md5 :: string
  m_size :: int
  m_realSize :: int
  m_variant_status :: VariantStatus
  m_error :: string

record ReleaseVersion =
  m_number :: string
  m_status :: Status
  m_releaseDate :: QDateTime
  m_variants :: "ReleaseVariant list"
  m_selectedVariant :: int

record Release =
  m_name :: string
  m_displayName :: string
  m_summary :: string
  m_description :: string
  m_icon :: string
  m_screenshots :: "string list"
  m_versions :: "ReleaseVersion list"
  m_selectedVersion :: int

text \<open>The manager with its source model: \<open>m_releases\<close> is \<^verbatim>\<open>ReleaseListModel::m_releases\<close>.\<close>

record ReleaseManager =
  m_releases :: "Release list"
  m_frontPage :: bool
  m_filterText :: string
  m_filterArchitecture :: int
  m_selectedIndex :: int

subsection \<open>The architecture registry\<close>

definition m_all :: "(string list \<times> string) list" where
  "m_all =
    [([''x86-64''], ''AMD 64bit''),
     ([''x86'', ''i386'', ''i586'', ''i686''], ''Intel 32bit''),
     ([''armv7hl'', ''armhfp'', ''armh''], ''ARM v7''),
     ([''aarch64''], ''AArch64''),
     ([''mipsel''], ''MIPS''),
     ([''riscv'', ''riscv64''], ''RiscV64''),
     ([''e2k''], ''Elbrus''),
     ([''ppc64le''], ''PowerPC''),
     (['''', ''unknown''], ''Unknown'')]"

text \<open>The enumerators of \<^verbatim>\<open>ReleaseArchitecture::Id\<close> that the code names.\<close>

definition X86_64 :: nat where "X86_64 = 0"
definition AARCH64 :: nat where "AARCH64 = 3"
definition UNKNOWN :: nat where "UNKNOWN = 8"
definition ARCHCOUNT :: nat where "ARCHCOUNT = 9"

definition fromId :: "nat \<Rightarrow> nat option" where
  "fromId arch_id = (if arch_id < ARCHCOUNT then Some arch_id else None)"

definition fromAbbreviation :: "string \<Rightarrow> nat option" where
  "fromAbbreviation abbr = first_index (\<lambda>a. qstringlist_contains_ci (fst a) abbr) m_all"

definition fromFilename :: "string \<Rightarrow> nat option" where
  "fromFilename filename =
     first_index (\<lambda>a. list_ex (\<lambda>abbr. qcontains_ci filename abbr) (fst a)) m_all"

definition isKnown :: "string \<Rightarrow> bool" where
  "isKnown abbr = list_ex (\<lambda>a. qstringlist_contains_ci (fst a) abbr) m_all"

text \<open>
  \<^verbatim>\<open>i->arch() > fromAbbreviation(architecture)\<close> compares two pointers into \<open>m_all\<close>,
  that is, two indices; a null pointer is below every entry.
\<close>

fun arch_greater :: "nat option \<Rightarrow> nat option \<Rightarrow> bool" where
  "arch_greater None b = False"
| "arch_greater (Some i) None = True"
| "arch_greater (Some i) (Some j) = (j < i)"

subsection \<open>ReleaseVariant\<close>

text \<open>The constructor used by the merge; members without an initializer keep their defaults.\<close>

definition ReleaseVariant_new ::
  "string \<Rightarrow> string \<Rightarrow> string \<Rightarrow> int \<Rightarrow> nat option \<Rightarrow> ImageTypeId \<Rightarrow> string \<Rightarrow> ReleaseVariant" where
  "ReleaseVariant_new url shaHash md5 sz arch imageType board =
     \<lparr>m_image = [], m_arch = arch, m_image_type = imageType, m_board = board, m_url = url,
      m_shaHash = shaHash, m_md5 = md5, m_size = sz, m_realSize = 0,
      m_variant_status = PREPARING, m_error = []\<rparr>"

text \<open>
  \<^verbatim>\<open>ReleaseVariant::updateUrl\<close>. The signal \<open>sizeChanged\<close> is connected to
  \<open>realSizeChanged\<close> in the constructor, so the second follows the first.
\<close>

definition ReleaseVariant_updateUrl ::
  "ReleaseVariant \<Rightarrow> string \<Rightarrow> string \<Rightarrow> int \<Rightarrow> bool \<times> ReleaseVariant \<times> Signal list" where
  "ReleaseVariant_updateUrl v url sha256 sz =
     (let (c1, v1, e1) =
            (if url \<noteq> [] \<and> trimmed (m_url v) \<noteq> trimmed url
             then (True, v\<lparr>m_url := url\<rparr>, [urlChanged])
             else (False, v, []));
          (c2, v2, e2) =
            (if sha256 \<noteq> [] \<and> trimmed (m_shaHash v1) \<noteq> trimmed sha256
             then (True, v1\<lparr>m_shaHash := sha256\<rparr>, e1 @ [shaHashChanged])
             else (c1, v1, e1))
      in if sz \<noteq> 0 \<and> m_size v2 \<noteq> sz
         then (True, v2\<lparr>m_size := sz\<rparr>, e2 @ [sizeChanged, realSizeChanged])
         else (c2, v2, e2))"

subsection \<open>ReleaseVersion\<close>

definition status_of_text :: "string \<Rightarrow> Status" where
  "status_of_text status =
     (if status = ''alpha'' then ALPHA else if status = ''beta'' then BETA else FINAL)"

text \<open>
  The constructor \<^verbatim>\<open>ReleaseVersion(parent, number, status, releaseDate)\<close>; it emits the
  parent's \<open>prereleaseChanged\<close> for a status other than FINAL.
\<close>

definition ReleaseVersion_new :: "string \<Rightarrow> Status \<Rightarrow> QDateTime \<Rightarrow> ReleaseVersion \<times> Signal list" where
  "ReleaseVersion_new number status releaseDate =
     (\<lparr>m_number = number, m_status = status, m_releaseDate = releaseDate, m_variants = [],
       m_selectedVariant = 0\<rparr>,
      if status \<noteq> FINAL then [prereleaseChanged] else [])"

text \<open>
  \<^verbatim>\<open>ReleaseVersion::addVariant\<close>; \<open>selectedVariantChanged\<close> is connected to the manager's
  \<open>variantChangedFilter\<close>, which emits \<open>variantChanged\<close>.
\<close>

definition addVariant :: "ReleaseVersion \<Rightarrow> ReleaseVariant \<Rightarrow> ReleaseVersion \<times> Signal list" where
  "addVariant ver v =
     (let ver' = ver\<lparr>m_variants := m_variants ver @ [v]\<rparr>
      in (ver', variantsChanged #
                (if length (m_variants ver') = 1 then [selectedVariantChanged, variantChanged] else [])))"

text \<open>
  The first loop of \<^verbatim>\<open>ReleaseVersion::updateUrl\<close> over \<open>m_variants\<close>: the first variant
  with the architecture and the board is updated in place and the loop returns; \<open>None\<close>
  when the loop ends without a match.
\<close>

fun update_variants ::
  "nat option \<Rightarrow> string \<Rightarrow> string \<Rightarrow> string \<Rightarrow> int \<Rightarrow> ReleaseVariant list
     \<Rightarrow> (bool \<times> ReleaseVariant list \<times> Signal list) option" where
  "update_variants a board url sha256 sz [] = None"
| "update_variants a board url sha256 sz (i # rest) =
     (if m_arch i = a \<and> m_board i = board
      then (case ReleaseVariant_updateUrl i url sha256 sz of
              (c, i', e) \<Rightarrow> Some (c, i' # rest, e))
      else (case update_variants a board url sha256 sz rest of
              None \<Rightarrow> None
            | Some (c, rest', e) \<Rightarrow> Some (c, i # rest', e)))"

text \<open>The second loop: the number of leading variants whose architecture is not greater.\<close>

fun variant_order :: "nat option \<Rightarrow> ReleaseVariant list \<Rightarrow> nat" where
  "variant_order a [] = 0"
| "variant_order a (i # rest) = (if arch_greater (m_arch i) a then 0 else Suc (variant_order a rest))"

definition ReleaseVersion_updateUrl ::
  "ReleaseVersion \<Rightarrow> string \<Rightarrow> QDateTime \<Rightarrow> string \<Rightarrow> ImageTypeId \<Rightarrow> string \<Rightarrow> string \<Rightarrow> string
     \<Rightarrow> string \<Rightarrow> int \<Rightarrow> bool \<times> ReleaseVersion \<times> Signal list" where
  "ReleaseVersion_updateUrl ver status releaseDate architecture imageType board url sha256 md5 sz =
     (let s = status_of_text status
      in if status_value s \<le> status_value (m_status ver)
         then
           (let ver1 = ver\<lparr>m_status := s\<rparr>;
                e1 = statusChanged # (if s = FINAL then [prereleaseChanged] else []);
                (ver2, e2) =
                  (if m_releaseDate ver1 \<noteq> releaseDate \<and> isValid releaseDate
                   then (ver1\<lparr>m_releaseDate := releaseDate\<rparr>, e1 @ [releaseDateChanged])
                   else (ver1, e1))
            in case update_variants (fromAbbreviation architecture) board url sha256 sz
                      (m_variants ver2) of
                 Some (c, vs, e3) \<Rightarrow> (c, ver2\<lparr>m_variants := vs\<rparr>, e2 @ e3)
               | None \<Rightarrow>
                   (True,
                    ver2\<lparr>m_variants :=
                      qlist_insert (variant_order (fromAbbreviation architecture) (m_variants ver2))
                        (ReleaseVariant_new url sha256 md5 sz (fromAbbreviation architecture)
                           imageType board)
                        (m_variants ver2)\<rparr>,
                    e2))
         else (False, ver, []))"

text \<open>\<^verbatim>\<open>ReleaseVersion::setSelectedVariantIndex\<close>.\<close>

definition setSelectedVariantIndex :: "ReleaseVersion \<Rightarrow> int \<Rightarrow> ReleaseVersion \<times> Signal list" where
  "setSelectedVariantIndex ver o_arg =
     (if m_selectedVariant ver \<noteq> o_arg \<and> m_selectedVariant ver \<ge> 0
         \<and> m_selectedVariant ver < int (length (m_variants ver))
      then (ver\<lparr>m_selectedVariant := o_arg\<rparr>, [selectedVariantChanged, variantChanged])
      else (ver, []))"

text \<open>\<^verbatim>\<open>ReleaseVersion::selectedVariant\<close>: \<open>None\<close> is \<^verbatim>\<open>nullptr\<close>.\<close>

definition selectedVariant :: "ReleaseVersion \<Rightarrow> ReleaseVariant option" where
  "selectedVariant ver =
     (if m_selectedVariant ver \<ge> 0 \<and> m_selectedVariant ver < int (length (m_variants ver))
      then Some (m_variants ver ! nat (m_selectedVariant ver))
      else None)"

subsection \<open>Release\<close>

text \<open>The constructor \<^verbatim>\<open>Release::Release\<close>: no versions, the selection at 0.\<close>

definition Release_new ::
  "string \<Rightarrow> string \<Rightarrow> string \<Rightarrow> string \<Rightarrow> string \<Rightarrow> string list \<Rightarrow> Release" where
  "Release_new name display_name summary description icon screenshots =
     \<lparr>m_name = name, m_displayName = display_name, m_summary = summary,
      m_description = description, m_icon = icon, m_screenshots = screenshots,
      m_versions = [], m_selectedVersion = 0\<rparr>"

definition isLocal :: "Release \<Rightarrow> bool" where
  "isLocal r = (m_name r = ''custom'')"

text \<open>
  \<^verbatim>\<open>Release::addVersion\<close>; \<open>selectedVersionChanged\<close> is connected to the manager's
  \<open>variantChangedFilter\<close>.
\<close>

definition addVersion :: "Release \<Rightarrow> ReleaseVersion \<Rightarrow> Release \<times> Signal list" where
  "addVersion r version =
     (case first_index (\<lambda>x. m_number x < m_number version) (m_versions r) of
        Some i \<Rightarrow>
          (r\<lparr>m_versions := qlist_insert i version (m_versions r),
             m_selectedVersion :=
               (if m_status version \<noteq> FINAL \<and> m_selectedVersion r \<ge> int i
                then m_selectedVersion r + 1 else m_selectedVersion r)\<rparr>,
           [versionsChanged, selectedVersionChanged, variantChanged])
      | None \<Rightarrow>
          (r\<lparr>m_versions := m_versions r @ [version]\<rparr>,
           [versionsChanged, selectedVersionChanged, variantChanged]))"

text \<open>
  \<^verbatim>\<open>Release::removeVersion\<close>. The argument is a pointer to a version of the release or
  \<^verbatim>\<open>nullptr\<close>; a version of the release is given by its position in \<open>m_versions\<close>, which
  is what \<^verbatim>\<open>indexOf\<close> returns for it.
\<close>

definition removeVersion :: "Release \<Rightarrow> nat option \<Rightarrow> Release \<times> Signal list" where
  "removeVersion r version =
     (case version of
        None \<Rightarrow> (r, [])
      | Some idx \<Rightarrow>
          if idx < length (m_versions r)
          then
            (let (r1, e1) =
                   (if m_selectedVersion r = int idx
                    then (r\<lparr>m_selectedVersion := 0\<rparr>, [selectedVersionChanged, variantChanged])
                    else (r, []))
             in (r1\<lparr>m_versions := qlist_removeAt idx (m_versions r1)\<rparr>, e1 @ [versionsChanged]))
          else (r, []))"

text \<open>
  The first loop of \<^verbatim>\<open>Release::updateUrl\<close>: the first version with the number takes the
  update and the loop returns; \<open>None\<close> when no version has the number.
\<close>

fun update_versions ::
  "string \<Rightarrow> string \<Rightarrow> QDateTime \<Rightarrow> string \<Rightarrow> ImageTypeId \<Rightarrow> string \<Rightarrow> string \<Rightarrow> string \<Rightarrow> string
     \<Rightarrow> int \<Rightarrow> ReleaseVersion list \<Rightarrow> (bool \<times> ReleaseVersion list \<times> Signal list) option" where
  "update_versions version status releaseDate architecture imageType board url sha256 md5 sz [] =
     None"
| "update_versions version status releaseDate architecture imageType board url sha256 md5 sz
     (i # rest) =
     (if m_number i = version
      then (case ReleaseVersion_updateUrl i status releaseDate architecture imageType board url
                   sha256 md5 sz of
              (c, i', e) \<Rightarrow> Some (c, i' # rest, e))
      else (case update_versions version status releaseDate architecture imageType board url
                   sha256 md5 sz rest of
              None \<Rightarrow> None
            | Some (c, rest', e) \<Rightarrow> Some (c, i # rest', e)))"

text \<open>
  The eviction scan of \<^verbatim>\<open>Release::updateUrl\<close>: \<open>mn\<close> is the variable \<open>min\<close>,
  \<open>oldVer\<close> the version found so far, \<open>k\<close> the position of the head of the list.
\<close>

fun scan_min :: "string \<Rightarrow> nat option \<Rightarrow> nat \<Rightarrow> ReleaseVersion list \<Rightarrow> nat option" where
  "scan_min mn oldVer k [] = oldVer"
| "scan_min mn oldVer k (i # rest) =
     (if m_number i < mn then scan_min (m_number i) (Some k) (Suc k) rest
      else scan_min mn oldVer (Suc k) rest)"

text \<open>
  The version that \<^verbatim>\<open>Release::updateUrl\<close> creates for a number the release does not
  have: \<^verbatim>\<open>new ReleaseVersion\<close>, \<^verbatim>\<open>new ReleaseVariant\<close> and \<open>addVariant\<close>.
\<close>

definition created_version ::
  "string \<Rightarrow> string \<Rightarrow> QDateTime \<Rightarrow> string \<Rightarrow> ImageTypeId \<Rightarrow> string \<Rightarrow> string \<Rightarrow> string
     \<Rightarrow> string \<Rightarrow> int \<Rightarrow> ReleaseVersion" where
  "created_version version status releaseDate architecture imageType board url sha256 md5 sz =
     fst (addVariant (fst (ReleaseVersion_new version (status_of_text status) releaseDate))
            (ReleaseVariant_new url sha256 md5 sz (fromAbbreviation architecture) imageType board))"

definition Release_updateUrl ::
  "Release \<Rightarrow> string \<Rightarrow> string \<Rightarrow> QDateTime \<Rightarrow> string \<Rightarrow> ImageTypeId \<Rightarrow> string \<Rightarrow> string \<Rightarrow> string
     \<Rightarrow> string \<Rightarrow> int \<Rightarrow> bool \<times> Release \<times> Signal list" where
  "Release_updateUrl r version status releaseDate architecture imageType board url sha256 md5 sz =
     (case update_versions version status releaseDate architecture imageType board url sha256 md5
             sz (m_versions r) of
        Some (c, vs, e) \<Rightarrow> (c, r\<lparr>m_versions := vs\<rparr>, e)
      | None \<Rightarrow>
          (let finalVersions = length (filter (\<lambda>i. m_status i = FINAL) (m_versions r));
               (ver0, e0) = ReleaseVersion_new version (status_of_text status) releaseDate;
               variant = ReleaseVariant_new url sha256 md5 sz (fromAbbreviation architecture)
                           imageType board;
               (ver, e1) = addVariant ver0 variant;
               (r1, e2) = addVersion r ver;
               finalVersions' = (if m_status ver = FINAL then finalVersions + 1 else finalVersions)
           in if finalVersions' > 2
              then (case removeVersion r1 (scan_min ''0'' None 0 (m_versions r1)) of
                      (r2, e3) \<Rightarrow> (True, r2, e0 @ e1 @ e2 @ e3))
              else (True, r1, e0 @ e1 @ e2)))"

text \<open>\<^verbatim>\<open>Release::setSelectedVersionIndex\<close>.\<close>

definition setSelectedVersionIndex :: "Release \<Rightarrow> int \<Rightarrow> Release \<times> Signal list" where
  "setSelectedVersionIndex r o_arg =
     (if m_selectedVersion r \<noteq> o_arg \<and> m_selectedVersion r \<ge> 0
         \<and> m_selectedVersion r < int (length (m_versions r))
      then (r\<lparr>m_selectedVersion := o_arg\<rparr>, [selectedVersionChanged, variantChanged])
      else (r, []))"

definition selectedVersion :: "Release \<Rightarrow> ReleaseVersion option" where
  "selectedVersion r =
     (if m_selectedVersion r \<ge> 0 \<and> m_selectedVersion r < int (length (m_versions r))
      then Some (m_versions r ! nat (m_selectedVersion r))
      else None)"

subsection \<open>ReleaseManager\<close>

definition FRONTPAGE_ROW_COUNT :: int where
  "FRONTPAGE_ROW_COUNT = 3"

text \<open>\<^verbatim>\<open>ReleaseListModel::get\<close>: \<open>None\<close> is \<^verbatim>\<open>nullptr\<close>.\<close>

definition get :: "ReleaseManager \<Rightarrow> int \<Rightarrow> Release option" where
  "get m index =
     (if index \<ge> 0 \<and> index < int (length (m_releases m))
      then Some (m_releases m ! nat index) else None)"

text \<open>
  The constructor of \<^verbatim>\<open>ReleaseListModel\<close>. \<open>members\<close> are the releases made from the
  section files, in the order of the files; each is inserted at 0 when it is the
  workstation, at 1 when it is the server, and at the end otherwise. The custom release is
  then inserted at the last row of the front page. Its version is made from the literal
  \<open>0\<close>, a null string, with the default status and date. The code adds the version to
  the release before the variant to the version; both are held by pointer, so the release
  ends up holding the version with its variant.
\<close>

definition customRelease :: Release where
  "customRelease =
     fst (addVersion
       (Release_new ''custom'' ''Custom image'' ''Pick a file from your drive(s)''
          ''<p>Here you can choose a OS image from your hard drive to be written to your flash disk</p><p>Currently it is only supported to write raw disk images (.iso or .bin)</p>''
          ''qrc:/logo/custom'' [])
       (fst (addVariant (fst (ReleaseVersion_new [] FINAL InvalidDateTime))
          (ReleaseVariant_new [] [] [] 0 (fromId UNKNOWN) ISO ''UNKNOWN BOARD''))))"

definition section_insert_index :: "Release list \<Rightarrow> Release \<Rightarrow> nat" where
  "section_insert_index releases release =
     (if m_name release = ''alt-workstation'' then 0
      else if m_name release = ''alt-server'' then 1
      else length releases)"

definition ReleaseListModel_new :: "Release list \<Rightarrow> Release list" where
  "ReleaseListModel_new members =
     qlist_insert (nat (FRONTPAGE_ROW_COUNT - 1)) customRelease
       (foldl (\<lambda>releases release.
                 qlist_insert (section_insert_index releases release) release releases)
          [] members)"

text \<open>
  \<^verbatim>\<open>ReleaseManager::updateUrl\<close>, the merge of one record. The loop over the rows returns
  at the first release whose lower-cased name contains \<open>name\<close>.
\<close>

definition ReleaseManager_updateUrl ::
  "ReleaseManager \<Rightarrow> string \<Rightarrow> string \<Rightarrow> string \<Rightarrow> QDateTime \<Rightarrow> string \<Rightarrow> ImageTypeId \<Rightarrow> string
     \<Rightarrow> string \<Rightarrow> string \<Rightarrow> string \<Rightarrow> int \<Rightarrow> bool \<times> ReleaseManager \<times> Signal list" where
  "ReleaseManager_updateUrl m name version status releaseDate architecture imageType board url
     sha256 md5 sz =
     (if \<not> isKnown architecture then (False, m, [])
      else if imageType = UNKNOWN_IMAGE_TYPE then (False, m, [])
      else (case first_index (\<lambda>r. qcontains (toLower (m_name r)) name) (m_releases m) of
              None \<Rightarrow> (False, m, [])
            | Some i \<Rightarrow>
                (case Release_updateUrl (m_releases m ! i) version status releaseDate architecture
                        imageType board url sha256 md5 sz of
                   (c, r', e) \<Rightarrow> (c, m\<lparr>m_releases := (m_releases m)[i := r']\<rparr>, e))))"

text \<open>
  \<^verbatim>\<open>ReleaseManager::filterAcceptsRow\<close>. Off the front page the row is dereferenced
  without a check, so a row outside the list has no result (\<open>None\<close>). The two nested
  loops with \<open>break\<close> compute whether some variant of some version has the architecture:
  \<^verbatim>\<open>arch()->index()\<close> is the position of the entry in \<open>m_all\<close>, compared with the
  filter as an \<^verbatim>\<open>int\<close>.
\<close>

definition filterAcceptsRow :: "ReleaseManager \<Rightarrow> int \<Rightarrow> bool option" where
  "filterAcceptsRow m source_row =
     (if m_frontPage m then Some (source_row < FRONTPAGE_ROW_COUNT)
      else (case get m source_row of
              None \<Rightarrow> None
            | Some r \<Rightarrow>
                (let containsArch =
                       list_ex (\<lambda>version.
                          list_ex (\<lambda>variant. map_option int (m_arch variant) = Some (m_filterArchitecture m))
                            (m_variants version))
                         (m_versions r)
                 in Some (isLocal r \<or> (containsArch \<and> qcontains_ci (m_displayName r) (m_filterText m))))))"

subsection \<open>Concrete catalog entries\<close>

text \<open>
  Entries for the concrete cases below: a variant as the feed describes it (no hash, no
  size), a version holding that one variant, a release holding given versions, and a
  manager with the members' default values over given releases.
\<close>

definition example_variant :: "nat \<Rightarrow> ReleaseVariant" where
  "example_variant arch =
     ReleaseVariant_new ''http://getalt.org/image.iso'' [] [] 0 (Some arch) ISO ''PC''"

definition example_version :: "string \<Rightarrow> Status \<Rightarrow> nat \<Rightarrow> ReleaseVersion" where
  "example_version number status arch =
     (fst (ReleaseVersion_new number status InvalidDateTime))\<lparr>m_variants := [example_variant arch]\<rparr>"

definition example_release :: "string \<Rightarrow> ReleaseVersion list \<Rightarrow> Release" where
  "example_release name versions =
     (Release_new name name [] [] [] [])\<lparr>m_versions := versions\<rparr>"

definition example_manager :: "Release list \<Rightarrow> ReleaseManager" where
  "example_manager releases =
     \<lparr>m_releases = releases, m_frontPage = True, m_filterText = [], m_filterArchitecture = 0,
      m_selectedIndex = 0\<rparr>"

section \<open>Properties\<close>

subsection \<open>Auxiliary facts\<close>

lemma qcontains_empty: "qcontains s [] = True"
  by (cases s) simp_all

lemma first_index_None_iff: "first_index P xs = None \<longleftrightarrow> (\<forall>x \<in> set xs. \<not> P x)"
  by (induction xs) auto

lemma first_index_Some_iff:
  "first_index P xs = Some i \<longleftrightarrow> i < length xs \<and> P (xs ! i) \<and> (\<forall>j < i. \<not> P (xs ! j))"
proof (induction xs arbitrary: i)
  case Nil
  then show ?case by simp
next
  case (Cons x xs)
  show ?case
  proof (cases "P x")
    case True
    then show ?thesis by (cases i) auto
  next
    case False
    show ?thesis
    proof (cases i)
      case 0
      with False show ?thesis by auto
    next
      case (Suc k)
      have "(\<forall>j < Suc k. \<not> P ((x # xs) ! j)) \<longleftrightarrow> (\<forall>j < k. \<not> P (xs ! j))"
        using False by (auto simp: less_Suc_eq_0_disj)
      with False Suc Cons.IH [of k] show ?thesis by auto
    qed
  qed
qed

subsection \<open>Retention of FINAL versions\<close>

text \<open>
  C1. The retention example of the specification, run on the code: the release holds the
  FINAL versions "39" and "38" and a record for a new FINAL version "40" is merged. The
  eviction scan starts from \<open>min = "0"\<close> and no number is below "0", so \<open>oldVer\<close> stays
  null, \<open>removeVersion\<close> returns at once, and three FINAL versions remain.
\<close>

theorem retention_keeps_three_final_versions:
  "map (\<lambda>r. map (\<lambda>v. (m_number v, m_status v)) (m_versions r))
     (m_releases (fst (snd (ReleaseManager_updateUrl
        (example_manager [example_release ''alt-workstation''
           [example_version ''39'' FINAL X86_64, example_version ''38'' FINAL X86_64]])
        ''alt-workstation'' ''40'' ''0'' InvalidDateTime ''x86-64'' ISO ''PC''
        ''http://getalt.org/image.iso'' [] [] 0))))
   = [[(''40'', FINAL), (''39'', FINAL), (''38'', FINAL)]]
   \<and> scan_min ''0'' None 0
        [example_version ''40'' FINAL X86_64, example_version ''39'' FINAL X86_64,
         example_version ''38'' FINAL X86_64] = None"
  by code_simp

text \<open>
  The scan changes \<open>oldVer\<close> only at a number below the current \<open>min\<close>: over versions
  none of whose numbers is below \<open>min\<close> it returns \<open>oldVer\<close> as it was.
\<close>

lemma scan_min_nothing_below:
  "\<forall>v \<in> set vs. \<not> m_number v < mn \<Longrightarrow> scan_min mn oldVer k vs = oldVer"
  by (induction vs arbitrary: k) auto

subsection \<open>The selection setters\<close>

text \<open>
  C7. \<open>setSelectedVariantIndex\<close> and \<open>setSelectedVersionIndex\<close> test the range of the
  current index, not of the argument: on a version with one variant and on a release with
  one version, both with the selection at 0, the argument 5 is stored, and the selection
  then indexes nothing although the list is not empty.
\<close>

theorem setters_store_out_of_range_index:
  "m_selectedVariant (fst (setSelectedVariantIndex (example_version ''9'' FINAL X86_64) 5)) = 5
   \<and> length (m_variants (fst (setSelectedVariantIndex (example_version ''9'' FINAL X86_64) 5))) = 1
   \<and> selectedVariant (fst (setSelectedVariantIndex (example_version ''9'' FINAL X86_64) 5)) = None
   \<and> m_selectedVersion (fst (setSelectedVersionIndex
        (example_release ''alt-workstation'' [example_version ''9'' FINAL X86_64]) 5)) = 5
   \<and> length (m_versions (fst (setSelectedVersionIndex
        (example_release ''alt-workstation'' [example_version ''9'' FINAL X86_64]) 5))) = 1
   \<and> selectedVersion (fst (setSelectedVersionIndex
        (example_release ''alt-workstation'' [example_version ''9'' FINAL X86_64]) 5)) = None"
  by code_simp

subsection \<open>The merge of a new version\<close>

lemma update_versions_None_iff:
  "update_versions version status releaseDate architecture imageType board url sha256 md5 sz vs = None
     \<longleftrightarrow> (\<forall>v \<in> set vs. m_number v \<noteq> version)"
proof (induction vs)
  case Nil
  then show ?case by simp
next
  case (Cons i rest)
  then show ?case
    by (cases "ReleaseVersion_updateUrl i status releaseDate architecture imageType board url sha256 md5 sz")
       (auto split: option.splits)
qed

lemma scan_min_Some:
  "scan_min mn oldVer k vs = Some j \<Longrightarrow>
     oldVer = Some j \<or> (k \<le> j \<and> j < k + length vs \<and> m_number (vs ! (j - k)) < mn)"
proof (induction vs arbitrary: mn oldVer k)
  case Nil
  then show ?case by simp
next
  case (Cons x xs)
  show ?case
  proof (cases "m_number x < mn")
    case True
    with Cons.prems have "scan_min (m_number x) (Some k) (Suc k) xs = Some j" by simp
    from Cons.IH [OF this] True show ?thesis
      by (auto simp: Suc_diff_le dest: less_trans)
  next
    case False
    with Cons.prems have "scan_min mn oldVer (Suc k) xs = Some j" by simp
    from Cons.IH [OF this] show ?thesis
      by (auto simp: Suc_diff_le)
  qed
qed

lemma addVersion_versions:
  "m_versions (fst (addVersion r ver)) =
     (case first_index (\<lambda>x. m_number x < m_number ver) (m_versions r) of
        Some i \<Rightarrow> qlist_insert i ver (m_versions r)
      | None \<Rightarrow> m_versions r @ [ver])"
  by (simp add: addVersion_def split: option.splits)

lemma set_qlist_insert: "set (qlist_insert i v xs) = insert v (set xs)"
proof -
  have "set (take i xs) \<union> set (drop i xs) = set xs"
    by (metis append_take_drop_id set_append)
  then show ?thesis by (auto simp: qlist_insert_def)
qed

lemma set_addVersion: "set (m_versions (fst (addVersion r ver))) = insert ver (set (m_versions r))"
  by (simp add: addVersion_versions set_qlist_insert split: option.splits)

lemma in_set_qlist_removeAt:
  "x \<in> set xs \<Longrightarrow> k < length xs \<Longrightarrow> xs ! k \<noteq> x \<Longrightarrow> x \<in> set (qlist_removeAt k xs)"
proof (induction xs arbitrary: k)
  case Nil
  then show ?case by simp
next
  case (Cons y ys)
  show ?case
  proof (cases k)
    case 0
    with Cons.prems show ?thesis by (auto simp: qlist_removeAt_def)
  next
    case (Suc k')
    with Cons.prems Cons.IH [of k'] show ?thesis by (auto simp: qlist_removeAt_def)
  qed
qed

lemma removeVersion_versions:
  "m_versions (fst (removeVersion r x)) =
     (case x of None \<Rightarrow> m_versions r
      | Some idx \<Rightarrow> if idx < length (m_versions r) then qlist_removeAt idx (m_versions r) else m_versions r)"
  by (simp add: removeVersion_def split: option.splits prod.splits)

lemma in_set_removeVersion_scan:
  assumes "ver \<in> set vs" "\<not> m_number ver < ''0''" "m_versions r = vs"
  shows "ver \<in> set (m_versions (fst (removeVersion r (scan_min ''0'' None 0 vs))))"
proof (cases "scan_min ''0'' None 0 vs")
  case None
  with assms show ?thesis by (simp add: removeVersion_versions)
next
  case (Some j)
  from scan_min_Some [OF Some] have j: "j < length vs" "m_number (vs ! j) < ''0''" by auto
  with assms have "vs ! j \<noteq> ver" by auto
  with assms j Some show ?thesis
    by (simp add: removeVersion_versions in_set_qlist_removeAt)
qed

lemma Release_updateUrl_new_version:
  assumes new: "\<forall>v \<in> set (m_versions r). m_number v \<noteq> version"
    and ge: "\<not> version < ''0''"
  shows "fst (Release_updateUrl r version status releaseDate architecture imageType board url sha256 md5 sz)
    \<and> (\<exists>v \<in> set (m_versions (fst (snd (Release_updateUrl r version status releaseDate architecture
                 imageType board url sha256 md5 sz)))).
          m_number v = version \<and> m_status v = status_of_text status
          \<and> m_variants v = [ReleaseVariant_new url sha256 md5 sz (fromAbbreviation architecture) imageType board])"
proof -
  define ver where "ver = \<lparr>m_number = version, m_status = status_of_text status,
     m_releaseDate = releaseDate,
     m_variants = [ReleaseVariant_new url sha256 md5 sz (fromAbbreviation architecture) imageType board],
     m_selectedVariant = 0\<rparr>"
  define r1 where "r1 = fst (addVersion r ver)"
  have none: "update_versions version status releaseDate architecture imageType board url sha256 md5 sz
                (m_versions r) = None"
    using new by (simp add: update_versions_None_iff)
  have ver_in: "ver \<in> set (m_versions r1)"
    by (simp add: r1_def set_addVersion)
  have ver_ge: "\<not> m_number ver < ''0''"
    using ge by (simp add: ver_def)
  have kept: "ver \<in> set (m_versions (fst (removeVersion r1 (scan_min ''0'' None 0 (m_versions r1)))))"
    using ver_in ver_ge by (rule in_set_removeVersion_scan) simp
  have res: "Release_updateUrl r version status releaseDate architecture imageType board url sha256 md5 sz
      = (True, r1, snd (ReleaseVersion_new version (status_of_text status) releaseDate)
                @ [variantsChanged, selectedVariantChanged, variantChanged] @ snd (addVersion r ver))
    \<or> Release_updateUrl r version status releaseDate architecture imageType board url sha256 md5 sz
      = (True, fst (removeVersion r1 (scan_min ''0'' None 0 (m_versions r1))),
          snd (ReleaseVersion_new version (status_of_text status) releaseDate)
                @ [variantsChanged, selectedVariantChanged, variantChanged] @ snd (addVersion r ver)
                @ snd (removeVersion r1 (scan_min ''0'' None 0 (m_versions r1))))"
    unfolding Release_updateUrl_def none
    by (simp add: Let_def ReleaseVersion_new_def addVariant_def ver_def [symmetric] r1_def
          split: prod.splits)
  have props: "m_number ver = version \<and> m_status ver = status_of_text status
          \<and> m_variants ver = [ReleaseVariant_new url sha256 md5 sz (fromAbbreviation architecture) imageType board]"
    by (simp add: ver_def)
  from res show ?thesis
  proof
    assume "Release_updateUrl r version status releaseDate architecture imageType board url sha256 md5 sz
      = (True, r1, snd (ReleaseVersion_new version (status_of_text status) releaseDate)
                @ [variantsChanged, selectedVariantChanged, variantChanged] @ snd (addVersion r ver))"
    with ver_in props show ?thesis by auto
  next
    assume "Release_updateUrl r version status releaseDate architecture imageType board url sha256 md5 sz
      = (True, fst (removeVersion r1 (scan_min ''0'' None 0 (m_versions r1))),
          snd (ReleaseVersion_new version (status_of_text status) releaseDate)
                @ [variantsChanged, selectedVariantChanged, variantChanged] @ snd (addVersion r ver)
                @ snd (removeVersion r1 (scan_min ''0'' None 0 (m_versions r1))))"
    with kept props show ?thesis by auto
  qed
qed

lemma fromFilename_not_None: "fromFilename filename \<noteq> None"
proof -
  have "([[], ''unknown''], ''Unknown'') \<in> set m_all"
    by (simp add: m_all_def)
  moreover have "list_ex (\<lambda>abbr. qcontains_ci filename abbr) (fst ([[], ''unknown''], ''Unknown''))"
    by (simp add: qcontains_ci_def toLower_def qcontains_empty)
  ultimately show ?thesis
    unfolding fromFilename_def first_index_None_iff by blast
qed

subsection \<open>The order of the versions\<close>

lemma first_index_take_drop:
  "first_index P xs = Some i \<Longrightarrow>
     take i xs = takeWhile (\<lambda>x. \<not> P x) xs \<and> drop i xs = dropWhile (\<lambda>x. \<not> P x) xs"
  by (induction xs arbitrary: i) (auto split: if_splits)

lemma first_index_None_takeWhile:
  "first_index P xs = None \<Longrightarrow>
     takeWhile (\<lambda>x. \<not> P x) xs = xs \<and> dropWhile (\<lambda>x. \<not> P x) xs = []"
  by (induction xs) (auto split: if_splits)

lemma addVersion_takeWhile:
  "m_versions (fst (addVersion r version)) =
     takeWhile (\<lambda>x. \<not> m_number x < m_number version) (m_versions r)
       @ version # dropWhile (\<lambda>x. \<not> m_number x < m_number version) (m_versions r)"
proof (cases "first_index (\<lambda>x. m_number x < m_number version) (m_versions r)")
  case None
  have "m_versions (fst (addVersion r version)) = m_versions r @ [version]"
    using None by (simp add: addVersion_def)
  then show ?thesis
    by (simp only: first_index_None_takeWhile [OF None, THEN conjunct1]
          first_index_None_takeWhile [OF None, THEN conjunct2])
next
  case (Some i)
  have "m_versions (fst (addVersion r version)) = take i (m_versions r) @ version # drop i (m_versions r)"
    using Some by (simp add: addVersion_def qlist_insert_def)
  then show ?thesis
    by (simp only: first_index_take_drop [OF Some, THEN conjunct1]
          first_index_take_drop [OF Some, THEN conjunct2])
qed

lemma sorted_insert_descending:
  "sorted_wrt (\<lambda>a b. m_number b \<le> m_number a) xs \<Longrightarrow> m_number v = n \<Longrightarrow>
     sorted_wrt (\<lambda>a b. m_number b \<le> m_number a)
       (takeWhile (\<lambda>x. \<not> m_number x < n) xs @ v # dropWhile (\<lambda>x. \<not> m_number x < n) xs)"
proof (induction xs)
  case Nil
  then show ?case by simp
next
  case (Cons x xs)
  show ?case
  proof (cases "m_number x < n")
    case True
    with Cons.prems show ?thesis by (auto intro: order_trans less_imp_le)
  next
    case False
    have "set (takeWhile (\<lambda>x. \<not> m_number x < n) xs) \<union> set (dropWhile (\<lambda>x. \<not> m_number x < n) xs)
            = set xs"
      by (metis set_append takeWhile_dropWhile_id)
    with False Cons show ?thesis by (auto simp: sorted_wrt_append)
  qed
qed

lemma addVersion_sorted:
  assumes "sorted_wrt (\<lambda>a b. m_number b \<le> m_number a) (m_versions r)"
  shows "sorted_wrt (\<lambda>a b. m_number b \<le> m_number a) (m_versions (fst (addVersion r version)))"
  using sorted_insert_descending [OF assms, of version "m_number version"]
  by (simp add: addVersion_takeWhile)

lemma foldl_addVersion_sorted:
  "sorted_wrt (\<lambda>a b. m_number b \<le> m_number a) (m_versions r) \<Longrightarrow>
   sorted_wrt (\<lambda>a b. m_number b \<le> m_number a)
     (m_versions (foldl (\<lambda>r v. fst (addVersion r v)) r versions))"
  by (induction versions arbitrary: r) (simp_all add: addVersion_sorted)

lemma ReleaseVersion_updateUrl_number:
  "m_number (fst (snd (ReleaseVersion_updateUrl ver status releaseDate architecture imageType board
      url sha256 md5 sz))) = m_number ver"
  by (simp add: ReleaseVersion_updateUrl_def Let_def split: option.splits prod.splits)

lemma update_versions_numbers:
  "update_versions version status releaseDate architecture imageType board url sha256 md5 sz vs
     = Some (c, vs', e) \<Longrightarrow> map m_number vs' = map m_number vs"
proof (induction vs arbitrary: c vs' e)
  case Nil
  then show ?case by simp
next
  case (Cons i rest)
  show ?case
  proof (cases "m_number i = version")
    case True
    with Cons.prems ReleaseVersion_updateUrl_number [of i status releaseDate architecture imageType
        board url sha256 md5 sz]
    show ?thesis by (auto split: prod.splits)
  next
    case False
    with Cons.prems Cons.IH show ?thesis by (auto split: option.splits)
  qed
qed

lemma set_qlist_removeAt_subset: "set (qlist_removeAt k xs) \<subseteq> set xs"
  unfolding qlist_removeAt_def by (auto dest: in_set_takeD in_set_dropD)

lemma sorted_wrt_qlist_removeAt: "sorted_wrt R xs \<Longrightarrow> sorted_wrt R (qlist_removeAt k xs)"
proof (induction xs arbitrary: k)
  case Nil
  then show ?case by (simp add: qlist_removeAt_def)
next
  case (Cons x xs)
  show ?case
  proof (cases k)
    case 0
    with Cons.prems show ?thesis by (simp add: qlist_removeAt_def)
  next
    case (Suc k')
    have eq: "qlist_removeAt k (x # xs) = x # qlist_removeAt k' xs"
      by (simp add: Suc qlist_removeAt_def)
    from Cons.prems Cons.IH [of k'] set_qlist_removeAt_subset [of k' xs] show ?thesis
      unfolding eq by auto
  qed
qed

lemma removeVersion_sorted:
  "sorted_wrt R (m_versions r) \<Longrightarrow> sorted_wrt R (m_versions (fst (removeVersion r x)))"
  by (simp add: removeVersion_versions sorted_wrt_qlist_removeAt split: option.splits)

lemma created_version_eq:
  "created_version version status releaseDate architecture imageType board url sha256 md5 sz =
     \<lparr>m_number = version, m_status = status_of_text status, m_releaseDate = releaseDate,
      m_variants = [ReleaseVariant_new url sha256 md5 sz (fromAbbreviation architecture) imageType board],
      m_selectedVariant = 0\<rparr>"
  by (simp add: created_version_def addVariant_def ReleaseVersion_new_def)

lemma Release_updateUrl_created:
  assumes "update_versions version status releaseDate architecture imageType board url sha256 md5
    sz (m_versions r) = None"
  shows "fst (Release_updateUrl r version status releaseDate architecture imageType board url sha256
            md5 sz) = True"
    and "fst (snd (Release_updateUrl r version status releaseDate architecture imageType board url
            sha256 md5 sz)) =
         (if 2 < length (filter (\<lambda>i. m_status i = FINAL) (m_versions r))
                   + (if status_of_text status = FINAL then 1 else 0)
          then fst (removeVersion
                 (fst (addVersion r (created_version version status releaseDate architecture
                        imageType board url sha256 md5 sz)))
                 (scan_min ''0'' None 0
                    (m_versions (fst (addVersion r (created_version version status releaseDate
                        architecture imageType board url sha256 md5 sz))))))
          else fst (addVersion r (created_version version status releaseDate architecture
                        imageType board url sha256 md5 sz)))"
  unfolding Release_updateUrl_def assms created_version_def
  by (simp_all add: Let_def case_prod_beta addVariant_def ReleaseVersion_new_def)

lemma Release_updateUrl_sorted:
  assumes "sorted_wrt (\<lambda>a b. m_number b \<le> m_number a) (m_versions r)"
  shows "sorted_wrt (\<lambda>a b. m_number b \<le> m_number a)
     (m_versions (fst (snd (Release_updateUrl r version status releaseDate architecture imageType
        board url sha256 md5 sz))))"
proof (cases "update_versions version status releaseDate architecture imageType board url sha256 md5
    sz (m_versions r)")
  case None
  define ver where "ver = created_version version status releaseDate architecture
                        imageType board url sha256 md5 sz"
  define r' where "r' = fst (snd (Release_updateUrl r version status releaseDate architecture
                        imageType board url sha256 md5 sz))"
  have s1: "sorted_wrt (\<lambda>a b. m_number b \<le> m_number a) (m_versions (fst (addVersion r ver)))"
    using assms by (rule addVersion_sorted)
  then have s2: "sorted_wrt (\<lambda>a b. m_number b \<le> m_number a)
      (m_versions (fst (removeVersion (fst (addVersion r ver))
         (scan_min ''0'' None 0 (m_versions (fst (addVersion r ver)))))))"
    by (rule removeVersion_sorted)
  have "r' = fst (removeVersion (fst (addVersion r ver))
                (scan_min ''0'' None 0 (m_versions (fst (addVersion r ver)))))
        \<or> r' = fst (addVersion r ver)"
    unfolding r'_def ver_def Release_updateUrl_created(2) [OF None] by (rule if_split [THEN iffD2]) simp
  with s1 s2 show ?thesis
    unfolding r'_def [symmetric] by (elim disjE) (simp_all only:)
next
  case (Some t)
  obtain c vs e where t: "t = (c, vs, e)" by (cases t) auto
  have eq: "map m_number vs = map m_number (m_versions r)"
    using update_versions_numbers [OF Some [unfolded t]] .
  have "sorted_wrt (\<lambda>a b. b \<le> a) (map m_number (m_versions r))"
    using assms by (simp add: sorted_wrt_map)
  then have "sorted_wrt (\<lambda>a b. b \<le> a) (map m_number vs)"
    by (simp only: eq)
  then have "sorted_wrt (\<lambda>a b. m_number b \<le> m_number a) vs"
    by (simp add: sorted_wrt_map)
  then show ?thesis
    unfolding Release_updateUrl_def Some t by simp
qed

text \<open>
  C5. \<open>addVersion\<close> puts the new version in front of the first version whose number is
  below its own, and at the end when there is none: the versions before it are the longest
  prefix of versions whose numbers are not below the new number, so a version with an equal
  number stays in front of the new one. A list in descending order of the numbers stays so
  under \<open>addVersion\<close> and under the merge of a record into the release, and every list
  built by \<open>addVersion\<close> from a new release is in descending order. The versions "41",
  "39", "40", added in this order to a new release, are stored as "41", "40", "39".
\<close>

theorem addVersion_descending_order:
  "m_versions (fst (addVersion r version)) =
     takeWhile (\<lambda>x. \<not> m_number x < m_number version) (m_versions r)
       @ version # dropWhile (\<lambda>x. \<not> m_number x < m_number version) (m_versions r)
   \<and> (sorted_wrt (\<lambda>a b. m_number b \<le> m_number a) (m_versions r) \<longrightarrow>
        sorted_wrt (\<lambda>a b. m_number b \<le> m_number a) (m_versions (fst (addVersion r version))))
   \<and> (sorted_wrt (\<lambda>a b. m_number b \<le> m_number a) (m_versions r) \<longrightarrow>
        sorted_wrt (\<lambda>a b. m_number b \<le> m_number a)
          (m_versions (fst (snd (Release_updateUrl r number status releaseDate architecture
             imageType board url sha256 md5 sz)))))
   \<and> sorted_wrt (\<lambda>a b. m_number b \<le> m_number a)
        (m_versions (foldl (\<lambda>r v. fst (addVersion r v))
           (Release_new name display_name summary description icon screenshots) versions))
   \<and> map m_number (m_versions (foldl (\<lambda>r v. fst (addVersion r v))
        (Release_new name display_name summary description icon screenshots)
        [example_version ''41'' FINAL X86_64, example_version ''39'' FINAL X86_64,
         example_version ''40'' FINAL X86_64]))
      = [''41'', ''40'', ''39'']"
proof -
  have "sorted_wrt (\<lambda>a b. m_number b \<le> m_number a)
          (m_versions (Release_new name display_name summary description icon screenshots))"
    by (simp add: Release_new_def)
  then have "sorted_wrt (\<lambda>a b. m_number b \<le> m_number a)
        (m_versions (foldl (\<lambda>r v. fst (addVersion r v))
           (Release_new name display_name summary description icon screenshots) versions))"
    by (rule foldl_addVersion_sorted)
  moreover have "map m_number (m_versions (foldl (\<lambda>r v. fst (addVersion r v))
        (Release_new name display_name summary description icon screenshots)
        [example_version ''41'' FINAL X86_64, example_version ''39'' FINAL X86_64,
         example_version ''40'' FINAL X86_64]))
      = [''41'', ''40'', ''39'']"
    by (simp add: addVersion_takeWhile Release_new_def example_version_def ReleaseVersion_new_def)
  ultimately show ?thesis
    using addVersion_takeWhile [of r version] addVersion_sorted [of r version]
      Release_updateUrl_sorted [of r number status releaseDate architecture imageType board url
        sha256 md5 sz]
    by blast
qed

theorem addVersion_descending_order_witness:
  "sorted_wrt (\<lambda>a b. m_number b \<le> m_number a)
     [example_version ''41'' FINAL X86_64, example_version ''39'' FINAL X86_64]
   \<and> map m_number (m_versions (fst (addVersion
        (example_release ''alt-workstation''
           [example_version ''41'' FINAL X86_64, example_version ''39'' FINAL X86_64])
        (example_version ''40'' BETA X86_64)))) = [''41'', ''40'', ''39'']
   \<and> sorted_wrt (\<lambda>a b. m_number b \<le> m_number a)
       (m_versions (fst (addVersion
        (example_release ''alt-workstation''
           [example_version ''41'' FINAL X86_64, example_version ''39'' FINAL X86_64])
        (example_version ''40'' BETA X86_64))))"
proof -
  have s: "sorted_wrt (\<lambda>a b. m_number b \<le> m_number a)
     (m_versions (example_release ''alt-workstation''
           [example_version ''41'' FINAL X86_64, example_version ''39'' FINAL X86_64]))"
    by (simp add: example_release_def example_version_def ReleaseVersion_new_def)
  from addVersion_descending_order [of "example_release ''alt-workstation''
           [example_version ''41'' FINAL X86_64, example_version ''39'' FINAL X86_64]"
        "example_version ''40'' BETA X86_64"] s
  show ?thesis
    by (simp add: example_release_def example_version_def ReleaseVersion_new_def)
qed

subsection \<open>The target release of a record\<close>

lemma startsWith_iff: "startsWith s p \<longleftrightarrow> (\<exists>q. s = p @ q)"
  by (induction s p rule: startsWith.induct) auto

lemma qcontains_iff: "qcontains s sub \<longleftrightarrow> (\<exists>p q. s = p @ sub @ q)"
proof (induction s)
  case Nil
  then show ?case by simp
next
  case (Cons c s)
  have "(\<exists>p q. c # s = p @ sub @ q) \<longleftrightarrow> (\<exists>q. c # s = sub @ q) \<or> (\<exists>p q. s = p @ sub @ q)"
  proof
    assume "\<exists>p q. c # s = p @ sub @ q"
    then obtain p q where pq: "c # s = p @ sub @ q" by blast
    show "(\<exists>q. c # s = sub @ q) \<or> (\<exists>p q. s = p @ sub @ q)"
    proof (cases p)
      case Nil
      with pq show ?thesis by auto
    next
      case (Cons a p')
      with pq have "s = p' @ sub @ q" by simp
      then show ?thesis by blast
    qed
  next
    assume "(\<exists>q. c # s = sub @ q) \<or> (\<exists>p q. s = p @ sub @ q)"
    then show "\<exists>p q. c # s = p @ sub @ q"
    proof
      assume "\<exists>q. c # s = sub @ q"
      then obtain q where "c # s = [] @ sub @ q" by auto
      then show ?thesis by blast
    next
      assume "\<exists>p q. s = p @ sub @ q"
      then obtain p q where "c # s = (c # p) @ sub @ q" by auto
      then show ?thesis by blast
    qed
  qed
  with Cons show ?case by (simp add: startsWith_iff)
qed

lemma toLower_char_not_upper: "toLower_char c \<notin> set ''ABCDEFGHIJKLMNOPQRSTUVWXYZ''"
  unfolding toLower_char_def by simp

lemma toLower_no_upper: "c \<in> set (toLower s) \<Longrightarrow> c \<notin> set ''ABCDEFGHIJKLMNOPQRSTUVWXYZ''"
  unfolding toLower_def using toLower_char_not_upper by (auto simp del: set_simps)

text \<open>
  C6, as the code has it. \<open>ReleaseManager::updateUrl\<close> lower-cases the name of each
  release and tests whether the key occurs in it, case sensitively. So the letter case of
  the release's name is ignored and that of the key is not: when the key occurs in no
  lower-cased name, and in particular when it has an upper-case letter, the call returns
  false, changes nothing and emits nothing; otherwise the first release, in the order of
  the catalog, whose lower-cased name contains the key takes the record, and no other
  release changes.
\<close>

theorem release_targeting:
  "((\<forall>r \<in> set (m_releases m). \<not> (\<exists>p q. toLower (m_name r) = p @ name @ q)) \<longrightarrow>
      ReleaseManager_updateUrl m name version status releaseDate architecture imageType board url
        sha256 md5 sz = (False, m, []))
   \<and> ((\<exists>c \<in> set name. c \<in> set ''ABCDEFGHIJKLMNOPQRSTUVWXYZ'') \<longrightarrow>
      ReleaseManager_updateUrl m name version status releaseDate architecture imageType board url
        sha256 md5 sz = (False, m, []))
   \<and> (isKnown architecture \<longrightarrow> imageType \<noteq> UNKNOWN_IMAGE_TYPE \<longrightarrow>
       i < length (m_releases m) \<longrightarrow>
       (\<exists>p q. toLower (m_name (m_releases m ! i)) = p @ name @ q) \<longrightarrow>
       (\<forall>j < i. \<not> (\<exists>p q. toLower (m_name (m_releases m ! j)) = p @ name @ q)) \<longrightarrow>
         ReleaseManager_updateUrl m name version status releaseDate architecture imageType board url
             sha256 md5 sz
           = (case Release_updateUrl (m_releases m ! i) version status releaseDate architecture
                     imageType board url sha256 md5 sz of
                (c, r', e) \<Rightarrow> (c, m\<lparr>m_releases := (m_releases m)[i := r']\<rparr>, e)))"
proof (intro conjI impI)
  assume "\<forall>r \<in> set (m_releases m). \<not> (\<exists>p q. toLower (m_name r) = p @ name @ q)"
  then have "first_index (\<lambda>r. qcontains (toLower (m_name r)) name) (m_releases m) = None"
    by (simp add: first_index_None_iff qcontains_iff)
  then show "ReleaseManager_updateUrl m name version status releaseDate architecture imageType board
      url sha256 md5 sz = (False, m, [])"
    by (simp add: ReleaseManager_updateUrl_def)
next
  assume "\<exists>c \<in> set name. c \<in> set ''ABCDEFGHIJKLMNOPQRSTUVWXYZ''"
  then obtain c where c: "c \<in> set name" "c \<in> set ''ABCDEFGHIJKLMNOPQRSTUVWXYZ''"
    by blast
  have "\<not> (\<exists>p q. toLower (m_name r) = p @ name @ q)" for r
  proof
    assume "\<exists>p q. toLower (m_name r) = p @ name @ q"
    then obtain p q where "toLower (m_name r) = p @ name @ q" by blast
    with c(1) have "c \<in> set (toLower (m_name r))" by simp
    from toLower_no_upper [OF this] c(2) show False by blast
  qed
  then have "\<forall>r \<in> set (m_releases m). \<not> qcontains (toLower (m_name r)) name"
    unfolding qcontains_iff by blast
  then have "first_index (\<lambda>r. qcontains (toLower (m_name r)) name) (m_releases m) = None"
    by (simp only: first_index_None_iff)
  then show "ReleaseManager_updateUrl m name version status releaseDate architecture imageType board
      url sha256 md5 sz = (False, m, [])"
    by (simp add: ReleaseManager_updateUrl_def)
next
  assume known: "isKnown architecture" and ty: "imageType \<noteq> UNKNOWN_IMAGE_TYPE"
    and i: "i < length (m_releases m)"
    and hit: "\<exists>p q. toLower (m_name (m_releases m ! i)) = p @ name @ q"
    and first: "\<forall>j < i. \<not> (\<exists>p q. toLower (m_name (m_releases m ! j)) = p @ name @ q)"
  from i hit first
  have "first_index (\<lambda>r. qcontains (toLower (m_name r)) name) (m_releases m) = Some i"
    by (simp add: first_index_Some_iff qcontains_iff)
  with known ty show "ReleaseManager_updateUrl m name version status releaseDate architecture
      imageType board url sha256 md5 sz
    = (case Release_updateUrl (m_releases m ! i) version status releaseDate architecture
              imageType board url sha256 md5 sz of
         (c, r', e) \<Rightarrow> (c, m\<lparr>m_releases := (m_releases m)[i := r']\<rparr>, e))"
    by (simp add: ReleaseManager_updateUrl_def)
qed

theorem release_targeting_witness:
  "ReleaseManager_updateUrl
     (example_manager [example_release ''Alt-Workstation'' [], example_release ''alt-server'' [],
        example_release ''alt-server-v'' []])
     ''kworkstation'' ''9'' ''0'' InvalidDateTime ''x86-64'' ISO ''PC''
     ''http://getalt.org/image.iso'' [] [] 0
   = (False,
      example_manager [example_release ''Alt-Workstation'' [], example_release ''alt-server'' [],
        example_release ''alt-server-v'' []], [])
   \<and> ReleaseManager_updateUrl
       (example_manager [example_release ''Alt-Workstation'' [], example_release ''alt-server'' [],
          example_release ''alt-server-v'' []])
       ''server'' ''9'' ''0'' InvalidDateTime ''x86-64'' ISO ''PC''
       ''http://getalt.org/image.iso'' [] [] 0
     = (True,
        example_manager [example_release ''Alt-Workstation'' [],
          example_release ''alt-server'' [created_version ''9'' ''0'' InvalidDateTime ''x86-64'' ISO
             ''PC'' ''http://getalt.org/image.iso'' [] [] 0],
          example_release ''alt-server-v'' []],
        [variantsChanged, selectedVariantChanged, variantChanged, versionsChanged,
         selectedVersionChanged, variantChanged])"
proof -
  define M where "M = example_manager [example_release ''Alt-Workstation'' [],
     example_release ''alt-server'' [], example_release ''alt-server-v'' []]"
  have none: "\<forall>r \<in> set (m_releases M). \<not> (\<exists>p q. toLower (m_name r) = p @ ''kworkstation'' @ q)"
    unfolding qcontains_iff [symmetric] M_def by code_simp
  have known: "isKnown ''x86-64''" by code_simp
  have ty: "ISO \<noteq> UNKNOWN_IMAGE_TYPE" by simp
  have len: "1 < length (m_releases M)" by (simp add: M_def example_manager_def)
  have hit: "\<exists>p q. toLower (m_name (m_releases M ! 1)) = p @ ''server'' @ q"
    unfolding qcontains_iff [symmetric] M_def by code_simp
  have "\<not> qcontains (toLower (m_name (m_releases M ! 0))) ''server''"
    unfolding M_def by code_simp
  then have first: "\<forall>j < 1. \<not> (\<exists>p q. toLower (m_name (m_releases M ! j)) = p @ ''server'' @ q)"
    by (simp add: qcontains_iff)
  have r: "(case Release_updateUrl (m_releases M ! 1) ''9'' ''0'' InvalidDateTime ''x86-64'' ISO
              ''PC'' ''http://getalt.org/image.iso'' [] [] 0 of
         (c, r', e) \<Rightarrow> (c, M\<lparr>m_releases := (m_releases M)[1 := r']\<rparr>, e))
     = (True,
        example_manager [example_release ''Alt-Workstation'' [],
          example_release ''alt-server'' [created_version ''9'' ''0'' InvalidDateTime ''x86-64'' ISO
             ''PC'' ''http://getalt.org/image.iso'' [] [] 0],
          example_release ''alt-server-v'' []],
        [variantsChanged, selectedVariantChanged, variantChanged, versionsChanged,
         selectedVersionChanged, variantChanged])"
    unfolding M_def by code_simp
  from release_targeting [of M "''kworkstation''" "''9''" "''0''" InvalidDateTime "''x86-64''" ISO
      "''PC''" "''http://getalt.org/image.iso''" "[]" "[]" 0] none
  have a: "ReleaseManager_updateUrl M ''kworkstation'' ''9'' ''0'' InvalidDateTime ''x86-64'' ISO ''PC''
     ''http://getalt.org/image.iso'' [] [] 0 = (False, M, [])"
    by blast
  from release_targeting [of M "''server''" "''9''" "''0''" InvalidDateTime "''x86-64''" ISO
      "''PC''" "''http://getalt.org/image.iso''" "[]" "[]" 0 1] known ty len hit first
  have b: "ReleaseManager_updateUrl M ''server'' ''9'' ''0'' InvalidDateTime ''x86-64'' ISO ''PC''
     ''http://getalt.org/image.iso'' [] [] 0
    = (case Release_updateUrl (m_releases M ! 1) ''9'' ''0'' InvalidDateTime ''x86-64'' ISO
              ''PC'' ''http://getalt.org/image.iso'' [] [] 0 of
         (c, r', e) \<Rightarrow> (c, M\<lparr>m_releases := (m_releases M)[1 := r']\<rparr>, e))"
    by blast
  from a b r show ?thesis unfolding M_def by simp
qed

theorem release_targeting_counterexample:
  "toLower ''ALT-Workstation'' = toLower ''alt-workstation''
   \<and> ReleaseManager_updateUrl (example_manager [example_release ''alt-workstation'' []])
       ''ALT-Workstation'' ''9'' ''0'' InvalidDateTime ''x86-64'' ISO ''PC''
       ''http://getalt.org/image.iso'' [] [] 0
     = (False, example_manager [example_release ''alt-workstation'' []], [])
   \<and> fst (ReleaseManager_updateUrl (example_manager [example_release ''alt-workstation'' []])
       ''alt-workstation'' ''9'' ''0'' InvalidDateTime ''x86-64'' ISO ''PC''
       ''http://getalt.org/image.iso'' [] [] 0)"
  by code_simp

subsection \<open>Rejection of a status regression\<close>

lemma update_versions_first_index:
  "first_index (\<lambda>v. m_number v = version) vs = Some k \<Longrightarrow>
     update_versions version status releaseDate architecture imageType board url sha256 md5 sz vs
       = (case ReleaseVersion_updateUrl (vs ! k) status releaseDate architecture imageType board
                 url sha256 md5 sz of
            (c, v', e) \<Rightarrow> Some (c, vs[k := v'], e))"
proof (induction vs arbitrary: k)
  case Nil
  then show ?case by simp
next
  case (Cons x xs)
  show ?case
  proof (cases "m_number x = version")
    case True
    with Cons.prems show ?thesis by (simp split: prod.splits)
  next
    case False
    with Cons.prems obtain k' where k': "first_index (\<lambda>v. m_number v = version) xs = Some k'"
      and k: "k = Suc k'" by auto
    from Cons.IH [OF k'] False show ?thesis
      by (simp add: k split: prod.splits)
  qed
qed

lemma update_variants_first_index:
  "first_index (\<lambda>x. m_arch x = a \<and> m_board x = board) vs = Some j \<Longrightarrow>
     update_variants a board url sha256 sz vs
       = (case ReleaseVariant_updateUrl (vs ! j) url sha256 sz of
            (c, v', e) \<Rightarrow> Some (c, vs[j := v'], e))"
proof (induction vs arbitrary: j)
  case Nil
  then show ?case by simp
next
  case (Cons x xs)
  show ?case
  proof (cases "m_arch x = a \<and> m_board x = board")
    case True
    with Cons.prems show ?thesis by (simp split: prod.splits)
  next
    case False
    with Cons.prems obtain j' where j': "first_index (\<lambda>x. m_arch x = a \<and> m_board x = board) xs = Some j'"
      and j: "j = Suc j'" by auto
    from Cons.IH [OF j'] False show ?thesis
      by (auto simp add: j split: prod.splits)
  qed
qed

lemma update_variants_None_iff:
  "update_variants a board url sha256 sz vs = None
     \<longleftrightarrow> first_index (\<lambda>x. m_arch x = a \<and> m_board x = board) vs = None"
proof (induction vs)
  case Nil
  then show ?case by simp
next
  case (Cons x xs)
  then show ?case
    by (cases "ReleaseVariant_updateUrl x url sha256 sz") (auto split: option.splits)
qed

lemma ReleaseVersion_updateUrl_rejected:
  "status_value (m_status ver) < status_value (status_of_text status) \<Longrightarrow>
     ReleaseVersion_updateUrl ver status releaseDate architecture imageType board url sha256 md5 sz
       = (False, ver, [])"
  by (simp add: ReleaseVersion_updateUrl_def)

text \<open>
  C3. Let the record's key select release \<open>i\<close> and its number select version \<open>k\<close> of
  that release (the first one with the number). When the status named by the record is
  less final than the version's status, as "alpha" and "beta" are for a FINAL version, the
  merge returns false, the whole catalog is as before (the version keeps its status, and
  neither it nor any of its variants changes in any field), and no signal is emitted.
\<close>

theorem status_regression_rejected:
  assumes "first_index (\<lambda>r. qcontains (toLower (m_name r)) name) (m_releases m) = Some i"
    and "first_index (\<lambda>v. m_number v = version) (m_versions (m_releases m ! i)) = Some k"
    and "status_value (m_status (m_versions (m_releases m ! i) ! k))
           < status_value (status_of_text status)"
  shows "ReleaseManager_updateUrl m name version status releaseDate architecture imageType board url
           sha256 md5 sz = (False, m, [])"
proof -
  have "update_versions version status releaseDate architecture imageType board url sha256 md5 sz
          (m_versions (m_releases m ! i))
        = Some (False, m_versions (m_releases m ! i), [])"
    by (simp add: update_versions_first_index [OF assms(2)]
          ReleaseVersion_updateUrl_rejected [OF assms(3)])
  then have "Release_updateUrl (m_releases m ! i) version status releaseDate architecture imageType
               board url sha256 md5 sz = (False, m_releases m ! i, [])"
    by (simp add: Release_updateUrl_def)
  with assms(1) show ?thesis
    by (simp add: ReleaseManager_updateUrl_def)
qed

theorem status_regression_rejected_witness:
  "m_status (m_versions (m_releases (example_manager
       [example_release ''alt-workstation'' [example_version ''9'' FINAL X86_64]]) ! 0) ! 0) = FINAL
   \<and> ReleaseManager_updateUrl
       (example_manager [example_release ''alt-workstation'' [example_version ''9'' FINAL X86_64]])
       ''alt-workstation'' ''9'' ''alpha'' (ValidDateTime 1) ''x86-64'' ISO ''PC''
       ''http://getalt.org/other.iso'' ''abc'' [] 7
     = (False,
        example_manager [example_release ''alt-workstation'' [example_version ''9'' FINAL X86_64]],
        [])"
proof -
  define M where "M = example_manager
     [example_release ''alt-workstation'' [example_version ''9'' FINAL X86_64]]"
  have i: "first_index (\<lambda>r. qcontains (toLower (m_name r)) ''alt-workstation'') (m_releases M) = Some 0"
    unfolding M_def by code_simp
  have k: "first_index (\<lambda>v. m_number v = ''9'') (m_versions (m_releases M ! 0)) = Some 0"
    unfolding M_def by code_simp
  have f: "m_status (m_versions (m_releases M ! 0) ! 0) = FINAL"
    unfolding M_def by code_simp
  have s: "status_value (m_status (m_versions (m_releases M ! 0) ! 0))
           < status_value (status_of_text ''alpha'')"
    unfolding M_def by code_simp
  from status_regression_rejected [OF i k s] f show ?thesis
    unfolding M_def by simp
qed

subsection \<open>A record that changes only the hash of a variant\<close>

lemma ReleaseVariant_updateUrl_hash_only:
  assumes "url = [] \<or> trimmed (m_url x) = trimmed url"
    and "sz = 0 \<or> m_size x = sz"
    and "sha256 \<noteq> []" and "trimmed (m_shaHash x) \<noteq> trimmed sha256"
  shows "ReleaseVariant_updateUrl x url sha256 sz = (True, x\<lparr>m_shaHash := sha256\<rparr>, [shaHashChanged])"
  using assms by (auto simp: ReleaseVariant_updateUrl_def)

text \<open>
  C9, as the code has it. The record selects release \<open>i\<close>, version \<open>k\<close> and variant
  \<open>j\<close> (the first with the architecture and the board), carries the version's status
  and no new release date, a url that is empty or equal to the variant's up to trimming, a
  size that is zero or equal to the variant's, and a hash that is not empty and differs
  from the variant's after trimming. Then the merge returns true; the catalog afterwards is
  the catalog before with \<open>m_shaHash\<close> of that variant replaced, so its url and size, and
  every other field, are unchanged; the variant's own merge emits \<open>shaHashChanged\<close> and
  nothing else; and \<open>shaHashChanged\<close> is the only signal of the whole merge besides the
  status signals of the version (\<open>statusChanged\<close>, \<open>prereleaseChanged\<close>), which
  \<open>ReleaseVersion::updateUrl\<close> emits on every record it accepts.
\<close>

theorem variant_hash_merge:
  fixes m :: ReleaseManager and i k j :: nat
  defines "R \<equiv> m_releases m ! i"
  defines "V \<equiv> m_versions (m_releases m ! i) ! k"
  defines "X \<equiv> m_variants (m_versions (m_releases m ! i) ! k) ! j"
  assumes known: "isKnown architecture" and ty: "imageType \<noteq> UNKNOWN_IMAGE_TYPE"
    and i: "first_index (\<lambda>r. qcontains (toLower (m_name r)) name) (m_releases m) = Some i"
    and k: "first_index (\<lambda>v. m_number v = version) (m_versions R) = Some k"
    and status: "status_of_text status = m_status V"
    and date: "releaseDate = m_releaseDate V \<or> \<not> isValid releaseDate"
    and j: "first_index (\<lambda>x. m_arch x = fromAbbreviation architecture \<and> m_board x = board)
              (m_variants V) = Some j"
    and url: "url = [] \<or> trimmed (m_url X) = trimmed url"
    and sz: "sz = 0 \<or> m_size X = sz"
    and sha: "sha256 \<noteq> []" "trimmed (m_shaHash X) \<noteq> trimmed sha256"
  shows "fst (ReleaseManager_updateUrl m name version status releaseDate architecture imageType board
            url sha256 md5 sz)
    \<and> fst (snd (ReleaseManager_updateUrl m name version status releaseDate architecture imageType
            board url sha256 md5 sz))
        = m\<lparr>m_releases := (m_releases m)
              [i := R\<lparr>m_versions := (m_versions R)
                 [k := V\<lparr>m_variants := (m_variants V)[j := X\<lparr>m_shaHash := sha256\<rparr>]\<rparr>]\<rparr>]\<rparr>
    \<and> filter (\<lambda>s. s \<noteq> statusChanged \<and> s \<noteq> prereleaseChanged)
         (snd (snd (ReleaseManager_updateUrl m name version status releaseDate architecture
            imageType board url sha256 md5 sz)))
        = [shaHashChanged]
    \<and> ReleaseVariant_updateUrl X url sha256 sz = (True, X\<lparr>m_shaHash := sha256\<rparr>, [shaHashChanged])"
proof -
  have x: "ReleaseVariant_updateUrl X url sha256 sz = (True, X\<lparr>m_shaHash := sha256\<rparr>, [shaHashChanged])"
    using url sz sha by (rule ReleaseVariant_updateUrl_hash_only)
  have vs: "update_variants (fromAbbreviation architecture) board url sha256 sz (m_variants V)
          = Some (True, (m_variants V)[j := X\<lparr>m_shaHash := sha256\<rparr>], [shaHashChanged])"
    using update_variants_first_index [OF j, of url sha256 sz] x
    by (simp add: X_def V_def)
  have v: "ReleaseVersion_updateUrl V status releaseDate architecture imageType board url sha256 md5 sz
          = (True, V\<lparr>m_variants := (m_variants V)[j := X\<lparr>m_shaHash := sha256\<rparr>]\<rparr>,
             statusChanged # (if status_of_text status = FINAL then [prereleaseChanged] else [])
               @ [shaHashChanged])"
    using date vs by (auto simp: ReleaseVersion_updateUrl_def status)
  have r: "Release_updateUrl R version status releaseDate architecture imageType board url sha256 md5 sz
          = (True, R\<lparr>m_versions := (m_versions R)
                 [k := V\<lparr>m_variants := (m_variants V)[j := X\<lparr>m_shaHash := sha256\<rparr>]\<rparr>]\<rparr>,
             statusChanged # (if status_of_text status = FINAL then [prereleaseChanged] else [])
               @ [shaHashChanged])"
    using update_versions_first_index [OF k, of status releaseDate architecture imageType board url
        sha256 md5 sz] v
    by (simp add: Release_updateUrl_def V_def R_def)
  have "ReleaseManager_updateUrl m name version status releaseDate architecture imageType board
            url sha256 md5 sz
      = (True,
         m\<lparr>m_releases := (m_releases m)
              [i := R\<lparr>m_versions := (m_versions R)
                 [k := V\<lparr>m_variants := (m_variants V)[j := X\<lparr>m_shaHash := sha256\<rparr>]\<rparr>]\<rparr>]\<rparr>,
         statusChanged # (if status_of_text status = FINAL then [prereleaseChanged] else [])
               @ [shaHashChanged])"
    using known ty i r by (simp add: ReleaseManager_updateUrl_def R_def)
  with x show ?thesis by simp
qed

theorem variant_hash_merge_witness:
  "fst (ReleaseManager_updateUrl
          (example_manager [example_release ''alt-workstation'' [example_version ''9'' FINAL X86_64]])
          ''alt-workstation'' ''9'' ''0'' InvalidDateTime ''x86-64'' ISO ''PC''
          '' http://getalt.org/image.iso '' ''abc'' [] 0)
   \<and> fst (snd (ReleaseManager_updateUrl
          (example_manager [example_release ''alt-workstation'' [example_version ''9'' FINAL X86_64]])
          ''alt-workstation'' ''9'' ''0'' InvalidDateTime ''x86-64'' ISO ''PC''
          '' http://getalt.org/image.iso '' ''abc'' [] 0))
     = example_manager [example_release ''alt-workstation''
          [(example_version ''9'' FINAL X86_64)
             \<lparr>m_variants := [(example_variant X86_64)\<lparr>m_shaHash := ''abc''\<rparr>]\<rparr>]]
   \<and> filter (\<lambda>s. s \<noteq> statusChanged \<and> s \<noteq> prereleaseChanged)
       (snd (snd (ReleaseManager_updateUrl
          (example_manager [example_release ''alt-workstation'' [example_version ''9'' FINAL X86_64]])
          ''alt-workstation'' ''9'' ''0'' InvalidDateTime ''x86-64'' ISO ''PC''
          '' http://getalt.org/image.iso '' ''abc'' [] 0)))
     = [shaHashChanged]"
proof -
  define M where "M = example_manager
     [example_release ''alt-workstation'' [example_version ''9'' FINAL X86_64]]"
  have known: "isKnown ''x86-64''" by code_simp
  have ty: "ISO \<noteq> UNKNOWN_IMAGE_TYPE" by simp
  have i: "first_index (\<lambda>r. qcontains (toLower (m_name r)) ''alt-workstation'') (m_releases M) = Some 0"
    unfolding M_def by code_simp
  have k: "first_index (\<lambda>v. m_number v = ''9'') (m_versions (m_releases M ! 0)) = Some 0"
    unfolding M_def by code_simp
  have status: "status_of_text ''0'' = m_status (m_versions (m_releases M ! 0) ! 0)"
    unfolding M_def by code_simp
  have date: "InvalidDateTime = m_releaseDate (m_versions (m_releases M ! 0) ! 0)
                \<or> \<not> isValid InvalidDateTime"
    by simp
  have j: "first_index (\<lambda>x. m_arch x = fromAbbreviation ''x86-64'' \<and> m_board x = ''PC'')
              (m_variants (m_versions (m_releases M ! 0) ! 0)) = Some 0"
    unfolding M_def by code_simp
  have "trimmed (m_url (m_variants (m_versions (m_releases M ! 0) ! 0) ! 0))
           = trimmed '' http://getalt.org/image.iso ''"
    unfolding M_def by code_simp
  then have url: "'' http://getalt.org/image.iso '' = []
      \<or> trimmed (m_url (m_variants (m_versions (m_releases M ! 0) ! 0) ! 0))
           = trimmed '' http://getalt.org/image.iso ''"
    by (rule disjI2)
  have sz: "(0::int) = 0 \<or> m_size (m_variants (m_versions (m_releases M ! 0) ! 0) ! 0) = 0"
    by simp
  have sha1: "''abc'' \<noteq> []" by simp
  have sha2: "trimmed (m_shaHash (m_variants (m_versions (m_releases M ! 0) ! 0) ! 0)) \<noteq> trimmed ''abc''"
    unfolding M_def by code_simp
  have upd: "M\<lparr>m_releases := (m_releases M)
              [0 := (m_releases M ! 0)\<lparr>m_versions := (m_versions (m_releases M ! 0))
                 [0 := (m_versions (m_releases M ! 0) ! 0)
                    \<lparr>m_variants := (m_variants (m_versions (m_releases M ! 0) ! 0))
                       [0 := (m_variants (m_versions (m_releases M ! 0) ! 0) ! 0)
                               \<lparr>m_shaHash := ''abc''\<rparr>]\<rparr>]\<rparr>]\<rparr>
     = example_manager [example_release ''alt-workstation''
          [(example_version ''9'' FINAL X86_64)
             \<lparr>m_variants := [(example_variant X86_64)\<lparr>m_shaHash := ''abc''\<rparr>]\<rparr>]]"
    unfolding M_def
    by (simp add: example_manager_def example_release_def example_version_def Release_new_def
          ReleaseVersion_new_def)
  from variant_hash_merge [OF known ty i k status date j url sz sha1 sha2, of "[]"]
  show ?thesis unfolding upd unfolding M_def by simp
qed

theorem variant_hash_merge_counterexample:
  "first_index (\<lambda>x. m_arch x = fromAbbreviation ''x86-64'' \<and> m_board x = ''PC'')
     (m_variants (example_version ''9'' FINAL X86_64)) = Some 0
   \<and> m_url (example_variant X86_64) = ''http://getalt.org/image.iso''
   \<and> ReleaseManager_updateUrl
       (example_manager [example_release ''alt-workstation'' [example_version ''9'' FINAL X86_64]])
       ''alt-workstation'' ''9'' ''0'' InvalidDateTime ''x86-64'' ISO ''PC''
       ''http://getalt.org/image.iso'' ''abc'' [] 0
     = (True,
        example_manager [example_release ''alt-workstation''
          [(example_version ''9'' FINAL X86_64)
             \<lparr>m_variants := [(example_variant X86_64)\<lparr>m_shaHash := ''abc''\<rparr>]\<rparr>]],
        [statusChanged, prereleaseChanged, shaHashChanged])"
  by code_simp

subsection \<open>The filter of the catalog view\<close>

lemma qlist_insert_nth_min: "qlist_insert n v xs ! min n (length xs) = v"
  by (simp add: qlist_insert_def nth_append min_def)

lemma length_qlist_insert: "length (qlist_insert n v xs) = Suc (length xs)"
  by (simp add: qlist_insert_def)

lemma isLocal_customRelease: "isLocal customRelease"
  by (simp add: isLocal_def customRelease_def addVersion_def Release_new_def split: option.splits)

lemma filterAcceptsRow_off_front_page:
  assumes "\<not> m_frontPage m" and "0 \<le> row" and "row < int (length (m_releases m))"
  shows "filterAcceptsRow m row =
     Some (isLocal (m_releases m ! nat row)
           \<or> ((\<exists>version \<in> set (m_versions (m_releases m ! nat row)).
                  \<exists>variant \<in> set (m_variants version).
                    map_option int (m_arch variant) = Some (m_filterArchitecture m))
               \<and> qcontains_ci (m_displayName (m_releases m ! nat row)) (m_filterText m)))"
  using assms by (simp add: filterAcceptsRow_def get_def list_ex_iff)

text \<open>
  C8. On the front page \<open>filterAcceptsRow\<close> accepts a row exactly when it is below 3,
  whatever the architecture and the text filter are. Off the front page, for a row of the
  catalog, it accepts the release exactly when the release is local, or some variant of
  some of its versions has the architecture of the filter and the display name contains
  the filter text, letter case ignored. Hence a local release is accepted; a release that
  is not local and whose variants (there is one at least) all are aarch64 is rejected under
  the x86-64 filter, and accepted under the AArch64 filter when its display name contains
  the filter text, as every name contains the empty text. In the list that the model's
  constructor builds, the custom release is local and stands at a row that is accepted in
  both modes.
\<close>

theorem filterAcceptsRow_correct:
  "(m_frontPage m \<longrightarrow> filterAcceptsRow m row = Some (row < 3))
   \<and> (\<not> m_frontPage m \<longrightarrow> 0 \<le> row \<longrightarrow> row < int (length (m_releases m)) \<longrightarrow>
        filterAcceptsRow m row =
          Some (isLocal (m_releases m ! nat row)
                \<or> ((\<exists>version \<in> set (m_versions (m_releases m ! nat row)).
                       \<exists>variant \<in> set (m_variants version).
                         map_option int (m_arch variant) = Some (m_filterArchitecture m))
                    \<and> qcontains_ci (m_displayName (m_releases m ! nat row)) (m_filterText m)))
        \<and> (isLocal (m_releases m ! nat row) \<longrightarrow> filterAcceptsRow m row = Some True)
        \<and> (\<not> isLocal (m_releases m ! nat row) \<longrightarrow>
            (\<forall>version \<in> set (m_versions (m_releases m ! nat row)).
               \<forall>variant \<in> set (m_variants version). m_arch variant = Some AARCH64) \<longrightarrow>
            (\<exists>version \<in> set (m_versions (m_releases m ! nat row)). m_variants version \<noteq> []) \<longrightarrow>
              (m_filterArchitecture m = int X86_64 \<longrightarrow> filterAcceptsRow m row = Some False)
              \<and> (m_filterArchitecture m = int AARCH64 \<longrightarrow>
                  qcontains_ci (m_displayName (m_releases m ! nat row)) (m_filterText m) \<longrightarrow>
                    filterAcceptsRow m row = Some True)))
   \<and> qcontains_ci display_name []
   \<and> (m_releases m = ReleaseListModel_new members \<longrightarrow>
        (\<exists>custom_row. get m custom_row = Some customRelease \<and> isLocal customRelease
           \<and> filterAcceptsRow m custom_row = Some True))"
proof (intro conjI impI)
  assume "m_frontPage m"
  then show "filterAcceptsRow m row = Some (row < 3)"
    by (simp add: filterAcceptsRow_def FRONTPAGE_ROW_COUNT_def)
next
  assume a: "\<not> m_frontPage m" "0 \<le> row" "row < int (length (m_releases m))"
  then show "filterAcceptsRow m row =
          Some (isLocal (m_releases m ! nat row)
                \<or> ((\<exists>version \<in> set (m_versions (m_releases m ! nat row)).
                       \<exists>variant \<in> set (m_variants version).
                         map_option int (m_arch variant) = Some (m_filterArchitecture m))
                    \<and> qcontains_ci (m_displayName (m_releases m ! nat row)) (m_filterText m)))"
    by (rule filterAcceptsRow_off_front_page)
next
  assume a: "\<not> m_frontPage m" "0 \<le> row" "row < int (length (m_releases m))"
    and "isLocal (m_releases m ! nat row)"
  then show "filterAcceptsRow m row = Some True"
    by (simp add: filterAcceptsRow_off_front_page)
next
  assume a: "\<not> m_frontPage m" "0 \<le> row" "row < int (length (m_releases m))"
    and nl: "\<not> isLocal (m_releases m ! nat row)"
    and all: "\<forall>version \<in> set (m_versions (m_releases m ! nat row)).
               \<forall>variant \<in> set (m_variants version). m_arch variant = Some AARCH64"
    and f: "m_filterArchitecture m = int X86_64"
  have "\<not> (\<exists>version \<in> set (m_versions (m_releases m ! nat row)).
          \<exists>variant \<in> set (m_variants version).
             map_option int (m_arch variant) = Some (m_filterArchitecture m))"
    using all f by (auto simp: AARCH64_def X86_64_def)
  with nl show "filterAcceptsRow m row = Some False"
    by (simp add: filterAcceptsRow_off_front_page [OF a])
next
  assume a: "\<not> m_frontPage m" "0 \<le> row" "row < int (length (m_releases m))"
    and all: "\<forall>version \<in> set (m_versions (m_releases m ! nat row)).
               \<forall>variant \<in> set (m_variants version). m_arch variant = Some AARCH64"
    and ex: "\<exists>version \<in> set (m_versions (m_releases m ! nat row)). m_variants version \<noteq> []"
    and f: "m_filterArchitecture m = int AARCH64"
    and t: "qcontains_ci (m_displayName (m_releases m ! nat row)) (m_filterText m)"
  from ex obtain version variant where v: "version \<in> set (m_versions (m_releases m ! nat row))"
      "variant \<in> set (m_variants version)"
    by (metis last_in_set)
  with all have "m_arch variant = Some AARCH64" by blast
  with v f have "\<exists>version \<in> set (m_versions (m_releases m ! nat row)).
          \<exists>variant \<in> set (m_variants version).
             map_option int (m_arch variant) = Some (m_filterArchitecture m)"
    by auto
  with t show "filterAcceptsRow m row = Some True"
    by (simp add: filterAcceptsRow_off_front_page [OF a])
next
  show "qcontains_ci display_name []"
    by (simp add: qcontains_ci_def toLower_def qcontains_empty)
next
  assume rs: "m_releases m = ReleaseListModel_new members"
  define xs where "xs = foldl (\<lambda>releases release.
                 qlist_insert (section_insert_index releases release) release releases)
          [] members"
  define n where "n = min 2 (length xs)"
  have rs': "m_releases m = qlist_insert 2 customRelease xs"
    by (simp add: rs ReleaseListModel_new_def xs_def FRONTPAGE_ROW_COUNT_def)
  have n: "n < length (m_releases m)" "n < 3"
    by (simp_all add: rs' length_qlist_insert n_def)
  have at: "m_releases m ! n = customRelease"
    unfolding rs' n_def by (rule qlist_insert_nth_min)
  have g: "get m (int n) = Some customRelease"
    using n at by (simp add: get_def)
  have "filterAcceptsRow m (int n) = Some True"
  proof (cases "m_frontPage m")
    case True
    with n show ?thesis by (simp add: filterAcceptsRow_def FRONTPAGE_ROW_COUNT_def)
  next
    case False
    with n at isLocal_customRelease show ?thesis
      by (simp add: filterAcceptsRow_off_front_page)
  qed
  with g isLocal_customRelease
  show "\<exists>custom_row. get m custom_row = Some customRelease \<and> isLocal customRelease
           \<and> filterAcceptsRow m custom_row = Some True"
    by blast
qed


theorem filterAcceptsRow_correct_witness:
  "filterAcceptsRow
     (example_manager [example_release ''alt-server'' [example_version ''9'' FINAL AARCH64],
        customRelease]) 2 = Some True
   \<and> filterAcceptsRow
       (example_manager [example_release ''alt-server'' [example_version ''9'' FINAL AARCH64],
          customRelease]) 3 = Some False
   \<and> filterAcceptsRow
       ((example_manager [example_release ''alt-server'' [example_version ''9'' FINAL AARCH64],
          customRelease])\<lparr>m_frontPage := False, m_filterArchitecture := int X86_64\<rparr>) 0
       = Some False
   \<and> filterAcceptsRow
       ((example_manager [example_release ''alt-server'' [example_version ''9'' FINAL AARCH64],
          customRelease])\<lparr>m_frontPage := False, m_filterArchitecture := int AARCH64\<rparr>) 0
       = Some True
   \<and> filterAcceptsRow
       ((example_manager [example_release ''alt-server'' [example_version ''9'' FINAL AARCH64],
          customRelease])\<lparr>m_frontPage := False, m_filterArchitecture := int X86_64,
            m_filterText := ''no such text''\<rparr>) 1
       = Some True
   \<and> (\<exists>custom_row.
         get (example_manager (ReleaseListModel_new [])) custom_row = Some customRelease
         \<and> filterAcceptsRow (example_manager (ReleaseListModel_new [])) custom_row = Some True)"
proof -
  define RS where "RS = [example_release ''alt-server'' [example_version ''9'' FINAL AARCH64],
        customRelease]"
  define M where "M = example_manager RS"
  define MX where "MX = M\<lparr>m_frontPage := False, m_filterArchitecture := int X86_64\<rparr>"
  define MA where "MA = M\<lparr>m_frontPage := False, m_filterArchitecture := int AARCH64\<rparr>"
  define MT where "MT = M\<lparr>m_frontPage := False, m_filterArchitecture := int X86_64,
            m_filterText := ''no such text''\<rparr>"
  have front: "m_frontPage M" by (simp add: M_def example_manager_def)
  from filterAcceptsRow_correct [of M 2 "[]" "[]"] front
  have c1: "filterAcceptsRow M 2 = Some True" by simp
  from filterAcceptsRow_correct [of M 3 "[]" "[]"] front
  have c2: "filterAcceptsRow M 3 = Some False" by simp
  have off: "\<not> m_frontPage MX" "\<not> m_frontPage MA" "\<not> m_frontPage MT"
    by (simp_all add: MX_def MA_def MT_def)
  have len: "(0::int) < int (length (m_releases MX))" "(0::int) < int (length (m_releases MA))"
      "(1::int) < int (length (m_releases MT))"
    by (simp_all add: MX_def MA_def MT_def M_def RS_def example_manager_def)
  have nl: "\<not> isLocal (m_releases MX ! nat 0)" "\<not> isLocal (m_releases MA ! nat 0)"
    unfolding MX_def MA_def M_def RS_def by code_simp+
  have all: "\<forall>version \<in> set (m_versions (m_releases MX ! nat 0)).
               \<forall>variant \<in> set (m_variants version). m_arch variant = Some AARCH64"
      "\<forall>version \<in> set (m_versions (m_releases MA ! nat 0)).
               \<forall>variant \<in> set (m_variants version). m_arch variant = Some AARCH64"
    unfolding MX_def MA_def M_def RS_def by code_simp+
  have ex: "\<exists>version \<in> set (m_versions (m_releases MX ! nat 0)). m_variants version \<noteq> []"
      "\<exists>version \<in> set (m_versions (m_releases MA ! nat 0)). m_variants version \<noteq> []"
    unfolding MX_def MA_def M_def RS_def by code_simp+
  have fx: "m_filterArchitecture MX = int X86_64" by (simp add: MX_def)
  have fa: "m_filterArchitecture MA = int AARCH64" by (simp add: MA_def)
  have t: "qcontains_ci (m_displayName (m_releases MA ! nat 0)) (m_filterText MA)"
    unfolding MA_def M_def RS_def by code_simp
  have loc: "isLocal (m_releases MT ! nat 1)"
    unfolding MT_def M_def RS_def by code_simp
  have z: "(0::int) \<le> 0" "(0::int) \<le> 1" by simp_all
  note off_front = filterAcceptsRow_correct [THEN conjunct2, THEN conjunct1, rule_format]
  note only_aarch64 = off_front [THEN conjunct2, THEN conjunct2, rule_format]
  have c3: "filterAcceptsRow MX 0 = Some False"
    using off(1) z(1) len(1) nl(1) all(1) [rule_format] ex(1) fx
    by (rule only_aarch64 [THEN conjunct1, rule_format])
  have c4: "filterAcceptsRow MA 0 = Some True"
    using off(2) z(1) len(2) nl(2) all(2) [rule_format] ex(2) fa t
    by (rule only_aarch64 [THEN conjunct2, rule_format])
  have c5: "filterAcceptsRow MT 1 = Some True"
    using off(3) z(2) len(3) loc
    by (rule off_front [THEN conjunct2, THEN conjunct1, rule_format])
  have "m_releases (example_manager (ReleaseListModel_new [])) = ReleaseListModel_new []"
    by (simp add: example_manager_def)
  then have "\<exists>custom_row.
         get (example_manager (ReleaseListModel_new [])) custom_row = Some customRelease
         \<and> isLocal customRelease
         \<and> filterAcceptsRow (example_manager (ReleaseListModel_new [])) custom_row = Some True"
    by (rule filterAcceptsRow_correct [THEN conjunct2, THEN conjunct2, THEN conjunct2, rule_format])
  then obtain custom_row where
    "get (example_manager (ReleaseListModel_new [])) custom_row = Some customRelease"
    "filterAcceptsRow (example_manager (ReleaseListModel_new [])) custom_row = Some True"
    by (elim exE conjE)
  then have c6: "\<exists>custom_row.
         get (example_manager (ReleaseListModel_new [])) custom_row = Some customRelease
         \<and> filterAcceptsRow (example_manager (ReleaseListModel_new [])) custom_row = Some True"
    by (intro exI conjI)
  from c1 c2 c3 c4 c5 c6 show ?thesis
    unfolding MX_def MA_def MT_def M_def RS_def by (intro conjI)
qed

subsection \<open>Merging the same record twice\<close>

lemma ReleaseVariant_updateUrl_idem:
  "ReleaseVariant_updateUrl v url sha256 sz = (c, v', e) \<Longrightarrow>
     ReleaseVariant_updateUrl v' url sha256 sz = (False, v', [])"
  by (auto simp: ReleaseVariant_updateUrl_def Let_def split: if_splits)

lemma ReleaseVariant_updateUrl_key:
  "ReleaseVariant_updateUrl v url sha256 sz = (c, v', e) \<Longrightarrow>
     m_arch v' = m_arch v \<and> m_board v' = m_board v"
  by (auto simp: ReleaseVariant_updateUrl_def Let_def split: if_splits)

lemma ReleaseVariant_updateUrl_new:
  "ReleaseVariant_updateUrl (ReleaseVariant_new url sha256 md5 sz a imageType board) url sha256 sz
     = (False, ReleaseVariant_new url sha256 md5 sz a imageType board, [])"
  by (simp add: ReleaseVariant_updateUrl_def ReleaseVariant_new_def)

lemma first_index_list_update:
  "first_index P xs = Some j \<Longrightarrow> P y \<Longrightarrow> first_index P (xs[j := y]) = Some j"
  by (simp add: first_index_Some_iff)

lemma first_index_append_hit:
  "\<forall>x \<in> set pre. \<not> P x \<Longrightarrow> P y \<Longrightarrow> first_index P (pre @ y # post) = Some (length pre)"
  by (induction pre) simp_all

lemma update_variants_Some_index:
  assumes "update_variants a board url sha256 sz vs = Some (c, vs', e)"
  obtains j v' where "first_index (\<lambda>x. m_arch x = a \<and> m_board x = board) vs = Some j"
    and "ReleaseVariant_updateUrl (vs ! j) url sha256 sz = (c, v', e)" and "vs' = vs[j := v']"
proof -
  from assms have "first_index (\<lambda>x. m_arch x = a \<and> m_board x = board) vs \<noteq> None"
    using update_variants_None_iff [of a board url sha256 sz vs] by auto
  then obtain j where j: "first_index (\<lambda>x. m_arch x = a \<and> m_board x = board) vs = Some j"
    by auto
  obtain c0 v' e0 where r: "ReleaseVariant_updateUrl (vs ! j) url sha256 sz = (c0, v', e0)"
    by (cases "ReleaseVariant_updateUrl (vs ! j) url sha256 sz") auto
  from update_variants_first_index [OF j, of url sha256 sz] r assms
  have "c0 = c" "vs' = vs[j := v']" "e0 = e" by auto
  with j r that show ?thesis by blast
qed

lemma update_variants_idem:
  assumes "update_variants a board url sha256 sz vs = Some (c, vs', e)"
  shows "update_variants a board url sha256 sz vs' = Some (False, vs', [])"
proof -
  from assms obtain j v' where j: "first_index (\<lambda>x. m_arch x = a \<and> m_board x = board) vs = Some j"
    and r: "ReleaseVariant_updateUrl (vs ! j) url sha256 sz = (c, v', e)" and vs': "vs' = vs[j := v']"
    by (rule update_variants_Some_index)
  from j have len: "j < length vs" and hit: "m_arch (vs ! j) = a \<and> m_board (vs ! j) = board"
    by (simp_all add: first_index_Some_iff)
  from ReleaseVariant_updateUrl_key [OF r] hit have "m_arch v' = a \<and> m_board v' = board"
    by simp
  with j have j': "first_index (\<lambda>x. m_arch x = a \<and> m_board x = board) vs' = Some j"
    unfolding vs' by (rule first_index_list_update)
  have at: "vs' ! j = v'" using len by (simp add: vs')
  from update_variants_first_index [OF j', of url sha256 sz]
    ReleaseVariant_updateUrl_idem [OF r]
  show ?thesis by (simp add: at) (simp add: vs')
qed

lemma update_variants_inserted:
  assumes "update_variants a board url sha256 sz vs = None"
  shows "update_variants a board url sha256 sz
           (qlist_insert n (ReleaseVariant_new url sha256 md5 sz a imageType board) vs)
         = Some (False, qlist_insert n (ReleaseVariant_new url sha256 md5 sz a imageType board) vs, [])"
proof -
  define y where "y = ReleaseVariant_new url sha256 md5 sz a imageType board"
  from assms have none: "\<forall>x \<in> set vs. \<not> (m_arch x = a \<and> m_board x = board)"
    by (simp add: update_variants_None_iff first_index_None_iff)
  then have pre: "\<forall>x \<in> set (take n vs). \<not> (m_arch x = a \<and> m_board x = board)"
    by (meson in_set_takeD)
  have y: "m_arch y = a \<and> m_board y = board"
    by (simp add: y_def ReleaseVariant_new_def)
  have idx: "first_index (\<lambda>x. m_arch x = a \<and> m_board x = board) (take n vs @ y # drop n vs)
          = Some (length (take n vs))"
    using pre y by (rule first_index_append_hit)
  have at: "(take n vs @ y # drop n vs) ! length (take n vs) = y"
    by (simp only: nth_append_length)
  have upd: "(take n vs @ y # drop n vs)[length (take n vs) := y] = take n vs @ y # drop n vs"
    by (simp only: list_update_length)
  have new: "ReleaseVariant_updateUrl y url sha256 sz = (False, y, [])"
    unfolding y_def by (rule ReleaseVariant_updateUrl_new)
  have "update_variants a board url sha256 sz (take n vs @ y # drop n vs)
      = (case ReleaseVariant_updateUrl ((take n vs @ y # drop n vs) ! length (take n vs)) url sha256 sz of
            (c, v', e) \<Rightarrow> Some (c, (take n vs @ y # drop n vs)[length (take n vs) := v'], e))"
    using idx by (rule update_variants_first_index)
  also have "\<dots> = Some (False, take n vs @ y # drop n vs, [])"
    by (simp only: at new prod.case upd)
  finally show ?thesis
    unfolding qlist_insert_def y_def .
qed

lemma ReleaseVersion_updateUrl_accepted:
  assumes "status_value (status_of_text status) \<le> status_value (m_status ver)"
  shows "ReleaseVersion_updateUrl ver status releaseDate architecture imageType board url sha256 md5 sz
    = (case update_variants (fromAbbreviation architecture) board url sha256 sz (m_variants ver) of
         Some (c, vs, e3) \<Rightarrow>
           (c,
            ver\<lparr>m_status := status_of_text status,
                m_releaseDate := (if m_releaseDate ver \<noteq> releaseDate \<and> isValid releaseDate
                                  then releaseDate else m_releaseDate ver),
                m_variants := vs\<rparr>,
            statusChanged # (if status_of_text status = FINAL then [prereleaseChanged] else [])
              @ (if m_releaseDate ver \<noteq> releaseDate \<and> isValid releaseDate
                 then [releaseDateChanged] else []) @ e3)
       | None \<Rightarrow>
           (True,
            ver\<lparr>m_status := status_of_text status,
                m_releaseDate := (if m_releaseDate ver \<noteq> releaseDate \<and> isValid releaseDate
                                  then releaseDate else m_releaseDate ver),
                m_variants :=
                  qlist_insert (variant_order (fromAbbreviation architecture) (m_variants ver))
                    (ReleaseVariant_new url sha256 md5 sz (fromAbbreviation architecture)
                       imageType board)
                    (m_variants ver)\<rparr>,
            statusChanged # (if status_of_text status = FINAL then [prereleaseChanged] else [])
              @ (if m_releaseDate ver \<noteq> releaseDate \<and> isValid releaseDate
                 then [releaseDateChanged] else [])))"
  using assms
  by (simp add: ReleaseVersion_updateUrl_def Let_def split: option.splits)

lemma ReleaseVersion_updateUrl_not_accepted:
  assumes "\<not> status_value (status_of_text status) \<le> status_value (m_status ver)"
  shows "ReleaseVersion_updateUrl ver status releaseDate architecture imageType board url sha256 md5 sz
    = (False, ver, [])"
  using assms by (simp add: ReleaseVersion_updateUrl_def)

lemma ReleaseVersion_updateUrl_settled:
  assumes st: "m_status ver = status_of_text status"
    and date: "m_releaseDate ver = releaseDate \<or> \<not> isValid releaseDate"
    and vs: "update_variants (fromAbbreviation architecture) board url sha256 sz (m_variants ver)
               = Some (False, m_variants ver, [])"
  shows "ReleaseVersion_updateUrl ver status releaseDate architecture imageType board url sha256 md5 sz
    = (False, ver,
       statusChanged # (if status_of_text status = FINAL then [prereleaseChanged] else []))"
proof -
  have acc: "status_value (status_of_text status) \<le> status_value (m_status ver)"
    by (simp add: st)
  have "ver\<lparr>m_status := status_of_text status, m_releaseDate := m_releaseDate ver,
            m_variants := m_variants ver\<rparr> = ver"
    by (simp add: st [symmetric])
  with date show ?thesis
    unfolding ReleaseVersion_updateUrl_accepted [OF acc] vs by auto
qed

lemma ReleaseVersion_updateUrl_idem:
  assumes "ReleaseVersion_updateUrl ver status releaseDate architecture imageType board url sha256
             md5 sz = (c, ver', e)"
  shows "ReleaseVersion_updateUrl ver' status releaseDate architecture imageType board url sha256
             md5 sz
         = (False, ver',
            if status_value (status_of_text status) \<le> status_value (m_status ver)
            then statusChanged # (if status_of_text status = FINAL then [prereleaseChanged] else [])
            else [])"
proof (cases "status_value (status_of_text status) \<le> status_value (m_status ver)")
  case False
  with assms have "ver' = ver"
    by (simp add: ReleaseVersion_updateUrl_not_accepted)
  with False show ?thesis
    by (simp add: ReleaseVersion_updateUrl_not_accepted)
next
  case True
  note eq = assms [unfolded ReleaseVersion_updateUrl_accepted [OF True]]
  have "m_status ver' = status_of_text status
      \<and> (m_releaseDate ver' = releaseDate \<or> \<not> isValid releaseDate)
      \<and> update_variants (fromAbbreviation architecture) board url sha256 sz (m_variants ver')
               = Some (False, m_variants ver', [])"
  proof (cases "update_variants (fromAbbreviation architecture) board url sha256 sz (m_variants ver)")
    case None
    from update_variants_inserted [OF None] eq show ?thesis
      unfolding None by (auto split: if_splits)
  next
    case (Some t)
    obtain c0 vs e3 where t: "t = (c0, vs, e3)" by (cases t) auto
    from update_variants_idem [OF Some [unfolded t]] eq show ?thesis
      unfolding Some t by (auto split: if_splits)
  qed
  then have "ReleaseVersion_updateUrl ver' status releaseDate architecture imageType board url sha256
             md5 sz
         = (False, ver',
            statusChanged # (if status_of_text status = FINAL then [prereleaseChanged] else []))"
    by (intro ReleaseVersion_updateUrl_settled) simp_all
  with True show ?thesis by simp
qed

lemma ReleaseVersion_updateUrl_created:
  "ReleaseVersion_updateUrl
     (created_version version status releaseDate architecture imageType board url sha256 md5 sz)
     status releaseDate architecture imageType board url sha256 md5 sz
   = (False, created_version version status releaseDate architecture imageType board url sha256 md5 sz,
      statusChanged # (if status_of_text status = FINAL then [prereleaseChanged] else []))"
proof (rule ReleaseVersion_updateUrl_settled)
  show "m_status (created_version version status releaseDate architecture imageType board url
          sha256 md5 sz) = status_of_text status"
    by (simp add: created_version_eq)
  show "m_releaseDate (created_version version status releaseDate architecture imageType board url
          sha256 md5 sz) = releaseDate \<or> \<not> isValid releaseDate"
    by (simp add: created_version_eq)
  show "update_variants (fromAbbreviation architecture) board url sha256 sz
          (m_variants (created_version version status releaseDate architecture imageType board url
             sha256 md5 sz))
        = Some (False, m_variants (created_version version status releaseDate architecture
             imageType board url sha256 md5 sz), [])"
    by (simp add: created_version_eq ReleaseVariant_updateUrl_new)
      (simp add: ReleaseVariant_new_def)
qed

lemma update_versions_Some_index:
  assumes "update_versions version status releaseDate architecture imageType board url sha256 md5 sz vs
             = Some (c, vs', e)"
  obtains k v' where "first_index (\<lambda>v. m_number v = version) vs = Some k"
    and "ReleaseVersion_updateUrl (vs ! k) status releaseDate architecture imageType board url sha256
           md5 sz = (c, v', e)"
    and "vs' = vs[k := v']"
proof -
  from assms have "first_index (\<lambda>v. m_number v = version) vs \<noteq> None"
    using update_versions_None_iff [of version status releaseDate architecture imageType board url
        sha256 md5 sz vs]
    by (auto simp: first_index_None_iff)
  then obtain k where k: "first_index (\<lambda>v. m_number v = version) vs = Some k"
    by auto
  obtain c0 v' e0 where r: "ReleaseVersion_updateUrl (vs ! k) status releaseDate architecture
      imageType board url sha256 md5 sz = (c0, v', e0)"
    by (cases "ReleaseVersion_updateUrl (vs ! k) status releaseDate architecture
      imageType board url sha256 md5 sz") auto
  from update_versions_first_index [OF k, of status releaseDate architecture imageType board url
      sha256 md5 sz] r assms
  have "c0 = c" "vs' = vs[k := v']" "e0 = e" by auto
  with k r that show ?thesis by blast
qed

lemma update_versions_idem:
  assumes "update_versions version status releaseDate architecture imageType board url sha256 md5 sz vs
             = Some (c, vs', e)"
  shows "\<exists>e2. update_versions version status releaseDate architecture imageType board url sha256 md5
               sz vs' = Some (False, vs', e2)
            \<and> set e2 \<subseteq> {statusChanged, prereleaseChanged}"
proof -
  from assms obtain k v' where k: "first_index (\<lambda>v. m_number v = version) vs = Some k"
    and r: "ReleaseVersion_updateUrl (vs ! k) status releaseDate architecture imageType board url
              sha256 md5 sz = (c, v', e)"
    and vs': "vs' = vs[k := v']"
    by (rule update_versions_Some_index)
  from k have len: "k < length vs" and hit: "m_number (vs ! k) = version"
    by (simp_all add: first_index_Some_iff)
  from ReleaseVersion_updateUrl_number [of "vs ! k" status releaseDate architecture imageType board
      url sha256 md5 sz] r hit
  have "m_number v' = version" by simp
  with k have k': "first_index (\<lambda>v. m_number v = version) vs' = Some k"
    unfolding vs' by (rule first_index_list_update)
  have at: "vs' ! k = v'" using len by (simp add: vs')
  have upd: "vs'[k := v'] = vs'" by (simp add: vs')
  define e2 where "e2 = (if status_value (status_of_text status) \<le> status_value (m_status (vs ! k))
            then statusChanged # (if status_of_text status = FINAL then [prereleaseChanged] else [])
            else [])"
  have "ReleaseVersion_updateUrl v' status releaseDate architecture imageType board url sha256 md5 sz
          = (False, v', e2)"
    unfolding e2_def using r by (rule ReleaseVersion_updateUrl_idem)
  with update_versions_first_index [OF k', of status releaseDate architecture imageType board url
      sha256 md5 sz]
  have "update_versions version status releaseDate architecture imageType board url sha256 md5 sz vs'
          = Some (False, vs', e2)"
    by (simp add: at upd)
  moreover have "set e2 \<subseteq> {statusChanged, prereleaseChanged}"
    by (auto simp: e2_def)
  ultimately show ?thesis by blast
qed

lemma Release_updateUrl_versions_subset:
  assumes "update_versions version status releaseDate architecture imageType board url sha256 md5
    sz (m_versions r) = None"
  shows "set (m_versions (fst (snd (Release_updateUrl r version status releaseDate architecture
            imageType board url sha256 md5 sz))))
         \<subseteq> insert (created_version version status releaseDate architecture imageType board url
                     sha256 md5 sz) (set (m_versions r))"
proof -
  define cv where "cv = created_version version status releaseDate architecture imageType board url
                     sha256 md5 sz"
  have "set (m_versions (fst (removeVersion (fst (addVersion r cv)) x)))
          \<subseteq> set (m_versions (fst (addVersion r cv)))" for x
    by (auto simp: removeVersion_versions split: option.splits
          dest: set_qlist_removeAt_subset [THEN subsetD])
  then show ?thesis
    unfolding Release_updateUrl_created(2) [OF assms] cv_def [symmetric]
    by (auto simp: set_addVersion)
qed

lemma Release_updateUrl_idem_kept:
  assumes none: "update_versions version status releaseDate architecture imageType board url sha256
    md5 sz (m_versions r) = None"
    and r': "r' = fst (snd (Release_updateUrl r version status releaseDate architecture imageType
                board url sha256 md5 sz))"
    and kept: "created_version version status releaseDate architecture imageType board url sha256
                 md5 sz \<in> set (m_versions r')"
  shows "Release_updateUrl r' version status releaseDate architecture imageType board url sha256 md5 sz
    = (False, r', statusChanged # (if status_of_text status = FINAL then [prereleaseChanged] else []))"
proof -
  define cv where "cv = created_version version status releaseDate architecture imageType board url
                     sha256 md5 sz"
  have num: "m_number cv = version" by (simp add: cv_def created_version_eq)
  from none have old: "\<forall>v \<in> set (m_versions r). m_number v \<noteq> version"
    by (simp add: update_versions_None_iff)
  have sub: "set (m_versions r') \<subseteq> insert cv (set (m_versions r))"
    unfolding r' cv_def using none by (rule Release_updateUrl_versions_subset)
  from kept num have "first_index (\<lambda>v. m_number v = version) (m_versions r') \<noteq> None"
    by (auto simp: first_index_None_iff cv_def)
  then obtain k where k: "first_index (\<lambda>v. m_number v = version) (m_versions r') = Some k"
    by auto
  then have len: "k < length (m_versions r')" and hit: "m_number (m_versions r' ! k) = version"
    by (simp_all add: first_index_Some_iff)
  from len have "m_versions r' ! k \<in> set (m_versions r')" by simp
  with sub old hit have at: "m_versions r' ! k = cv" by auto
  have upd: "(m_versions r')[k := cv] = m_versions r'"
    using at by (metis list_update_id)
  from update_versions_first_index [OF k, of status releaseDate architecture imageType board url
      sha256 md5 sz]
  have "update_versions version status releaseDate architecture imageType board url sha256 md5 sz
          (m_versions r')
        = Some (False, m_versions r',
                statusChanged # (if status_of_text status = FINAL then [prereleaseChanged] else []))"
    unfolding at by (simp add: cv_def ReleaseVersion_updateUrl_created) (simp add: upd [unfolded cv_def])
  then show ?thesis
    by (simp add: Release_updateUrl_def)
qed

lemma Release_updateUrl_name:
  "m_name (fst (snd (Release_updateUrl r version status releaseDate architecture imageType board url
      sha256 md5 sz))) = m_name r"
proof (cases "update_versions version status releaseDate architecture imageType board url sha256 md5
    sz (m_versions r)")
  case None
  have "m_name (fst (addVersion r v)) = m_name r" for v
    by (simp add: addVersion_def split: option.splits)
  moreover have "m_name (fst (removeVersion r0 x)) = m_name r0" for r0 x
    by (simp add: removeVersion_def split: option.splits)
  ultimately show ?thesis
    unfolding Release_updateUrl_created(2) [OF None] by simp
next
  case (Some t)
  then show ?thesis
    by (cases t) (simp add: Release_updateUrl_def)
qed

lemma scan_min_least:
  "scan_min mn oldVer k vs = Some j \<Longrightarrow> (\<forall>j0. oldVer = Some j0 \<longrightarrow> j0 < k) \<Longrightarrow>
     (if k \<le> j then \<forall>x \<in> set vs. \<not> m_number x < m_number (vs ! (j - k))
      else \<forall>x \<in> set vs. \<not> m_number x < mn)"
proof (induction vs arbitrary: mn oldVer k)
  case Nil
  then show ?case by auto
next
  case (Cons x xs)
  show ?case
  proof (cases "m_number x < mn")
    case True
    with Cons.prems have rec: "scan_min (m_number x) (Some k) (Suc k) xs = Some j" by simp
    have ih: "if Suc k \<le> j then \<forall>y \<in> set xs. \<not> m_number y < m_number (xs ! (j - Suc k))
              else \<forall>y \<in> set xs. \<not> m_number y < m_number x"
      by (rule Cons.IH [OF rec]) simp
    from scan_min_Some [OF rec]
    have pos: "j = k \<or> (Suc k \<le> j \<and> m_number (xs ! (j - Suc k)) < m_number x)"
      by auto
    show ?thesis
    proof (cases "Suc k \<le> j")
      case True
      with pos have lt: "m_number (xs ! (j - Suc k)) < m_number x" by auto
      have nth: "(x # xs) ! (j - k) = xs ! (j - Suc k)"
        using True by (simp add: Suc_diff_le)
      from ih True lt show ?thesis
        unfolding nth by (auto dest: less_asym)
    next
      case False
      with pos have jk: "j = k" by auto
      with ih show ?thesis by auto
    qed
  next
    case False
    with Cons.prems have rec: "scan_min mn oldVer (Suc k) xs = Some j" by simp
    have old: "\<forall>j0. oldVer = Some j0 \<longrightarrow> j0 < Suc k"
      using Cons.prems(2) by auto
    have ih: "if Suc k \<le> j then \<forall>y \<in> set xs. \<not> m_number y < m_number (xs ! (j - Suc k))
              else \<forall>y \<in> set xs. \<not> m_number y < mn"
      by (rule Cons.IH [OF rec old])
    from scan_min_Some [OF rec] Cons.prems(2)
    have pos: "j < k \<or> (Suc k \<le> j \<and> m_number (xs ! (j - Suc k)) < mn)"
      by auto
    show ?thesis
    proof (cases "Suc k \<le> j")
      case True
      with pos have lt: "m_number (xs ! (j - Suc k)) < mn" by auto
      have nth: "(x # xs) ! (j - k) = xs ! (j - Suc k)"
        using True by (simp add: Suc_diff_le)
      have "\<not> m_number x < m_number (xs ! (j - Suc k))"
        using False lt by (auto dest: less_trans)
      with ih True show ?thesis
        unfolding nth by auto
    next
      case F: False
      with pos have "j < k" by auto
      with ih F False show ?thesis by auto
    qed
  qed
qed

lemma evict_appended:
  assumes "first_index (\<lambda>x. m_number x < m_number cv) (m_versions r) = None"
    and "scan_min ''0'' None 0 (m_versions r @ [cv]) = Some (length (m_versions r))"
  shows "fst (removeVersion (fst (addVersion r cv))
                (scan_min ''0'' None 0 (m_versions (fst (addVersion r cv)))))
         = r\<lparr>m_selectedVersion :=
               (if m_selectedVersion r = int (length (m_versions r)) then 0
                else m_selectedVersion r)\<rparr>"
  using assms by (simp add: addVersion_def removeVersion_def qlist_removeAt_def)

lemma Release_updateUrl_idem_evicted:
  assumes none: "update_versions version status releaseDate architecture imageType board url sha256
    md5 sz (m_versions r) = None"
    and r': "r' = fst (snd (Release_updateUrl r version status releaseDate architecture imageType
                board url sha256 md5 sz))"
    and gone: "created_version version status releaseDate architecture imageType board url sha256
                 md5 sz \<notin> set (m_versions r')"
  shows "fst (snd (Release_updateUrl r' version status releaseDate architecture imageType board url
            sha256 md5 sz)) = r'"
proof -
  define cv where "cv = created_version version status releaseDate architecture imageType board url
                     sha256 md5 sz"
  define vs1 where "vs1 = m_versions (fst (addVersion r cv))"
  define evict where "evict \<longleftrightarrow> 2 < length (filter (\<lambda>i. m_status i = FINAL) (m_versions r))
                   + (if status_of_text status = FINAL then 1 else 0)"
  have num: "m_number cv = version" by (simp add: cv_def created_version_eq)
  from none have old: "\<forall>v \<in> set (m_versions r). m_number v \<noteq> version"
    by (simp add: update_versions_None_iff)
  have in1: "cv \<in> set vs1" by (simp add: vs1_def set_addVersion)
  have form: "r' = (if evict then fst (removeVersion (fst (addVersion r cv)) (scan_min ''0'' None 0 vs1))
                    else fst (addVersion r cv))"
    unfolding r' Release_updateUrl_created(2) [OF none] cv_def vs1_def evict_def ..
  have ev: evict
  proof (rule ccontr)
    assume "\<not> evict"
    with form in1 gone show False by (simp add: vs1_def cv_def)
  qed
  with form have r'1: "r' = fst (removeVersion (fst (addVersion r cv)) (scan_min ''0'' None 0 vs1))"
    by simp
  obtain j where j: "scan_min ''0'' None 0 vs1 = Some j" and jlen: "j < length vs1"
    and jcv: "vs1 ! j = cv"
  proof (cases "scan_min ''0'' None 0 vs1")
    case None
    with r'1 in1 gone show ?thesis
      by (simp add: removeVersion_versions vs1_def cv_def)
  next
    case (Some j)
    show ?thesis
    proof (cases "j < length vs1 \<and> vs1 ! j = cv")
      case True
      with Some that show ?thesis by blast
    next
      case False
      with Some r'1 in1 gone in_set_qlist_removeAt [of cv vs1 j] show ?thesis
        by (auto simp: removeVersion_versions vs1_def cv_def split: if_splits)
    qed
  qed
  from scan_min_least [OF j] jcv num
  have least: "\<forall>x \<in> set vs1. \<not> m_number x < version" by simp
  then have "\<forall>x \<in> set (m_versions r). \<not> m_number x < m_number cv"
    by (simp add: vs1_def set_addVersion num)
  then have app: "first_index (\<lambda>x. m_number x < m_number cv) (m_versions r) = None"
    by (simp add: first_index_None_iff)
  then have vs1: "vs1 = m_versions r @ [cv]"
    by (simp add: vs1_def addVersion_def)
  have jl: "j = length (m_versions r)"
  proof (rule ccontr)
    assume "j \<noteq> length (m_versions r)"
    with jlen have "j < length (m_versions r)" by (simp add: vs1)
    then have "vs1 ! j \<in> set (m_versions r)" by (simp add: vs1 nth_append)
    with old jcv num show False by auto
  qed
  have scan: "scan_min ''0'' None 0 (m_versions r @ [cv]) = Some (length (m_versions r))"
    using j by (simp add: vs1 jl)
  have r'2: "r' = r\<lparr>m_selectedVersion :=
               (if m_selectedVersion r = int (length (m_versions r)) then 0
                else m_selectedVersion r)\<rparr>"
    unfolding r'1 vs1_def using app scan by (rule evict_appended)
  then have vs': "m_versions r' = m_versions r" by simp
  have none': "update_versions version status releaseDate architecture imageType board url sha256
    md5 sz (m_versions r') = None"
    using none by (simp add: vs')
  have "fst (snd (Release_updateUrl r' version status releaseDate architecture imageType board url
            sha256 md5 sz))
      = fst (removeVersion (fst (addVersion r' cv))
                (scan_min ''0'' None 0 (m_versions (fst (addVersion r' cv)))))"
    unfolding Release_updateUrl_created(2) [OF none'] cv_def [symmetric] vs'
    using ev by (simp add: evict_def)
  also have "\<dots> = r'\<lparr>m_selectedVersion :=
               (if m_selectedVersion r' = int (length (m_versions r')) then 0
                else m_selectedVersion r')\<rparr>"
    using app scan by (intro evict_appended) (simp_all add: vs')
  also have "\<dots> = r'"
    by (simp add: r'2)
  finally show ?thesis .
qed

subsection \<open>Idempotence of the merge\<close>

lemma Release_updateUrl_idem:
  assumes "Release_updateUrl r version status releaseDate architecture imageType board url sha256 md5
             sz = (c, r', e)"
  shows "fst (snd (Release_updateUrl r' version status releaseDate architecture imageType board url
            sha256 md5 sz)) = r'
    \<and> (\<not> version < ''0'' \<longrightarrow>
         \<not> fst (Release_updateUrl r' version status releaseDate architecture imageType board url
              sha256 md5 sz)
         \<and> set (snd (snd (Release_updateUrl r' version status releaseDate architecture imageType
              board url sha256 md5 sz))) \<subseteq> {statusChanged, prereleaseChanged})"
proof (cases "update_versions version status releaseDate architecture imageType board url sha256 md5
    sz (m_versions r)")
  case (Some t)
  obtain c0 vs e0 where t: "t = (c0, vs, e0)" by (cases t) auto
  from assms have r': "r' = r\<lparr>m_versions := vs\<rparr>"
    unfolding Release_updateUrl_def Some t by simp
  from update_versions_idem [OF Some [unfolded t]] obtain e2
    where "update_versions version status releaseDate architecture imageType board url sha256 md5
               sz vs = Some (False, vs, e2)"
      and e2: "set e2 \<subseteq> {statusChanged, prereleaseChanged}"
    by blast
  then have "Release_updateUrl r' version status releaseDate architecture imageType board url
            sha256 md5 sz = (False, r', e2)"
    by (simp add: Release_updateUrl_def r')
  with e2 show ?thesis by simp
next
  case None
  define cv where "cv = created_version version status releaseDate architecture imageType board url
                     sha256 md5 sz"
  have r': "r' = fst (snd (Release_updateUrl r version status releaseDate architecture imageType
                board url sha256 md5 sz))"
    by (simp add: assms)
  show ?thesis
  proof (cases "cv \<in> set (m_versions r')")
    case True
    from Release_updateUrl_idem_kept [OF None r' True [unfolded cv_def]]
    show ?thesis by auto
  next
    case False
    have "cv \<in> set (m_versions r')" if ge: "\<not> version < ''0''"
    proof -
      have in1: "cv \<in> set (m_versions (fst (addVersion r cv)))"
        by (simp add: set_addVersion)
      have "\<not> m_number cv < ''0''"
        using ge by (simp add: cv_def created_version_eq)
      with in1 have "cv \<in> set (m_versions (fst (removeVersion (fst (addVersion r cv))
          (scan_min ''0'' None 0 (m_versions (fst (addVersion r cv)))))))"
        by (rule in_set_removeVersion_scan) simp
      with in1 show ?thesis
        unfolding r' Release_updateUrl_created(2) [OF None] cv_def [symmetric]
        by (simp split: if_splits)
    qed
    with False have "version < ''0''" by blast
    with Release_updateUrl_idem_evicted [OF None r' False [unfolded cv_def]]
    show ?thesis by simp
  qed
qed

text \<open>
  C4, as the code has it. When a record is merged and then merged again, the catalog after
  the second merge is the catalog after the first. If moreover the record's number is not
  below "0" (as no number starting with a digit is), the second merge returns false and
  emits no signal other than \<open>statusChanged\<close> and \<open>prereleaseChanged\<close>: no
  \<open>urlChanged\<close>, \<open>shaHashChanged\<close>, \<open>sizeChanged\<close>, \<open>releaseDateChanged\<close> or
  \<open>versionsChanged\<close>. The two status signals are not excluded: \<open>ReleaseVersion::updateUrl\<close>
  emits them on every record it accepts, whether or not the status changes.
\<close>

theorem merge_idempotent:
  assumes first: "ReleaseManager_updateUrl m name version status releaseDate architecture imageType
             board url sha256 md5 sz = (c1, m1, e1)"
    and second: "ReleaseManager_updateUrl m1 name version status releaseDate architecture imageType
             board url sha256 md5 sz = (c2, m2, e2)"
  shows "m2 = m1
    \<and> (\<not> version < ''0'' \<longrightarrow> \<not> c2 \<and> set e2 \<subseteq> {statusChanged, prereleaseChanged})"
proof (cases "isKnown architecture \<and> imageType \<noteq> UNKNOWN_IMAGE_TYPE
    \<and> first_index (\<lambda>r. qcontains (toLower (m_name r)) name) (m_releases m) \<noteq> None")
  case False
  with first have "m1 = m" "c1 = False"
    by (auto simp: ReleaseManager_updateUrl_def split: if_splits)
  with False second show ?thesis
    by (auto simp: ReleaseManager_updateUrl_def split: if_splits)
next
  case True
  then obtain i where known: "isKnown architecture" and ty: "imageType \<noteq> UNKNOWN_IMAGE_TYPE"
    and i: "first_index (\<lambda>r. qcontains (toLower (m_name r)) name) (m_releases m) = Some i"
    by auto
  obtain c r' e where R: "Release_updateUrl (m_releases m ! i) version status releaseDate
      architecture imageType board url sha256 md5 sz = (c, r', e)"
    by (cases "Release_updateUrl (m_releases m ! i) version status releaseDate
      architecture imageType board url sha256 md5 sz") auto
  from first known ty i R have m1: "m1 = m\<lparr>m_releases := (m_releases m)[i := r']\<rparr>"
    by (simp add: ReleaseManager_updateUrl_def)
  from i have len: "i < length (m_releases m)"
    and hit: "qcontains (toLower (m_name (m_releases m ! i))) name"
    by (simp_all add: first_index_Some_iff)
  from Release_updateUrl_name [of "m_releases m ! i" version status releaseDate architecture
      imageType board url sha256 md5 sz] R
  have "m_name r' = m_name (m_releases m ! i)" by simp
  with hit have "qcontains (toLower (m_name r')) name" by simp
  with i have i': "first_index (\<lambda>r. qcontains (toLower (m_name r)) name) (m_releases m1) = Some i"
    unfolding m1 by (simp add: first_index_list_update)
  have at: "m_releases m1 ! i = r'" using len by (simp add: m1)
  obtain c' r'' e' where R': "Release_updateUrl r' version status releaseDate
      architecture imageType board url sha256 md5 sz = (c', r'', e')"
    by (cases "Release_updateUrl r' version status releaseDate
      architecture imageType board url sha256 md5 sz") auto
  from second known ty i' at R'
  have res: "c2 = c'" "m2 = m1\<lparr>m_releases := (m_releases m1)[i := r'']\<rparr>" "e2 = e'"
    by (simp_all add: ReleaseManager_updateUrl_def)
  from Release_updateUrl_idem [OF R] R'
  have same: "r'' = r'"
    and quiet: "\<not> version < ''0'' \<longrightarrow> \<not> c' \<and> set e' \<subseteq> {statusChanged, prereleaseChanged}"
    by simp_all
  have "m2 = m1" unfolding res(2) same by (simp add: m1)
  with quiet res show ?thesis by simp
qed

theorem merge_idempotent_witness:
  "fst (snd (ReleaseManager_updateUrl
       (fst (snd (ReleaseManager_updateUrl (example_manager [example_release ''alt-workstation'' []])
          ''alt-workstation'' ''9'' ''0'' InvalidDateTime ''x86-64'' ISO ''PC''
          ''http://getalt.org/image.iso'' [] [] 0)))
       ''alt-workstation'' ''9'' ''0'' InvalidDateTime ''x86-64'' ISO ''PC''
       ''http://getalt.org/image.iso'' [] [] 0))
   = fst (snd (ReleaseManager_updateUrl (example_manager [example_release ''alt-workstation'' []])
          ''alt-workstation'' ''9'' ''0'' InvalidDateTime ''x86-64'' ISO ''PC''
          ''http://getalt.org/image.iso'' [] [] 0))
   \<and> \<not> fst (ReleaseManager_updateUrl
       (fst (snd (ReleaseManager_updateUrl (example_manager [example_release ''alt-workstation'' []])
          ''alt-workstation'' ''9'' ''0'' InvalidDateTime ''x86-64'' ISO ''PC''
          ''http://getalt.org/image.iso'' [] [] 0)))
       ''alt-workstation'' ''9'' ''0'' InvalidDateTime ''x86-64'' ISO ''PC''
       ''http://getalt.org/image.iso'' [] [] 0)
   \<and> set (snd (snd (ReleaseManager_updateUrl
       (fst (snd (ReleaseManager_updateUrl (example_manager [example_release ''alt-workstation'' []])
          ''alt-workstation'' ''9'' ''0'' InvalidDateTime ''x86-64'' ISO ''PC''
          ''http://getalt.org/image.iso'' [] [] 0)))
       ''alt-workstation'' ''9'' ''0'' InvalidDateTime ''x86-64'' ISO ''PC''
       ''http://getalt.org/image.iso'' [] [] 0)))
     \<subseteq> {statusChanged, prereleaseChanged}"
proof -
  define R1 where "R1 = ReleaseManager_updateUrl (example_manager [example_release ''alt-workstation'' []])
          ''alt-workstation'' ''9'' ''0'' InvalidDateTime ''x86-64'' ISO ''PC''
          ''http://getalt.org/image.iso'' [] [] 0"
  define R2 where "R2 = ReleaseManager_updateUrl (fst (snd R1))
          ''alt-workstation'' ''9'' ''0'' InvalidDateTime ''x86-64'' ISO ''PC''
          ''http://getalt.org/image.iso'' [] [] 0"
  have first: "ReleaseManager_updateUrl (example_manager [example_release ''alt-workstation'' []])
          ''alt-workstation'' ''9'' ''0'' InvalidDateTime ''x86-64'' ISO ''PC''
          ''http://getalt.org/image.iso'' [] [] 0 = (fst R1, fst (snd R1), snd (snd R1))"
    by (simp add: R1_def)
  have second: "ReleaseManager_updateUrl (fst (snd R1))
          ''alt-workstation'' ''9'' ''0'' InvalidDateTime ''x86-64'' ISO ''PC''
          ''http://getalt.org/image.iso'' [] [] 0 = (fst R2, fst (snd R2), snd (snd R2))"
    by (simp add: R2_def)
  have ge: "\<not> ''9'' < ''0''" by simp
  from merge_idempotent [OF first second] ge
  have "fst (snd R2) = fst (snd R1) \<and> \<not> fst R2
          \<and> set (snd (snd R2)) \<subseteq> {statusChanged, prereleaseChanged}"
    by blast
  then show ?thesis unfolding R2_def R1_def .
qed

theorem merge_idempotent_counterexample:
  "ReleaseManager_updateUrl
       (fst (snd (ReleaseManager_updateUrl (example_manager [example_release ''alt-workstation'' []])
          ''alt-workstation'' ''9'' ''0'' InvalidDateTime ''x86-64'' ISO ''PC''
          ''http://getalt.org/image.iso'' [] [] 0)))
       ''alt-workstation'' ''9'' ''0'' InvalidDateTime ''x86-64'' ISO ''PC''
       ''http://getalt.org/image.iso'' [] [] 0
   = (False,
      example_manager [example_release ''alt-workstation''
         [created_version ''9'' ''0'' InvalidDateTime ''x86-64'' ISO ''PC''
            ''http://getalt.org/image.iso'' [] [] 0]],
      [statusChanged, prereleaseChanged])"
  by code_simp

text \<open>
  The condition on the number is needed for the signals: two FINAL versions "2" and "1" and
  a record for the FINAL version "!" (below "0"). Each merge inserts the version and evicts
  it again, returns true and emits \<open>versionsChanged\<close> twice, and leaves the catalog as it
  was.
\<close>

lemma merge_of_evicted_version_repeats:
  "ReleaseManager_updateUrl
     (example_manager [example_release ''alt-workstation''
        [example_version ''2'' FINAL X86_64, example_version ''1'' FINAL X86_64]])
     ''alt-workstation'' ''!'' ''0'' InvalidDateTime ''x86-64'' ISO ''PC''
     ''http://getalt.org/image.iso'' [] [] 0
   = (True,
      example_manager [example_release ''alt-workstation''
        [example_version ''2'' FINAL X86_64, example_version ''1'' FINAL X86_64]],
      [variantsChanged, selectedVariantChanged, variantChanged, versionsChanged,
       selectedVersionChanged, variantChanged, versionsChanged])"
  by code_simp

subsection \<open>The return value of the merge\<close>

lemma ReleaseVariant_updateUrl_changed:
  assumes "ReleaseVariant_updateUrl v url sha256 sz = (c, v', e)"
  shows "(c \<longrightarrow> v' \<noteq> v) \<and> (\<not> c \<longrightarrow> v' = v)"
proof -
  from assms have "c \<longrightarrow> m_url v' \<noteq> m_url v \<or> m_shaHash v' \<noteq> m_shaHash v \<or> m_size v' \<noteq> m_size v"
    by (auto simp: ReleaseVariant_updateUrl_def Let_def split: if_splits)
  moreover from assms have "\<not> c \<longrightarrow> v' = v"
    by (auto simp: ReleaseVariant_updateUrl_def Let_def split: if_splits)
  ultimately show ?thesis by auto
qed

lemma list_update_neq: "j < length xs \<Longrightarrow> y \<noteq> xs ! j \<Longrightarrow> xs[j := y] \<noteq> xs"
  by (metis nth_list_update_eq)

lemma update_variants_changed:
  assumes "update_variants a board url sha256 sz vs = Some (c, vs', e)"
  shows "(c \<longrightarrow> vs' \<noteq> vs) \<and> (\<not> c \<longrightarrow> vs' = vs)"
proof -
  from assms obtain j v' where j: "first_index (\<lambda>x. m_arch x = a \<and> m_board x = board) vs = Some j"
    and r: "ReleaseVariant_updateUrl (vs ! j) url sha256 sz = (c, v', e)" and vs': "vs' = vs[j := v']"
    by (rule update_variants_Some_index)
  from j have len: "j < length vs" by (simp add: first_index_Some_iff)
  from ReleaseVariant_updateUrl_changed [OF r] len show ?thesis
    unfolding vs' by (auto dest: list_update_neq)
qed

lemma ReleaseVersion_updateUrl_changed:
  assumes "ReleaseVersion_updateUrl ver status releaseDate architecture imageType board url sha256
             md5 sz = (c, ver', e)"
  shows "(c \<longrightarrow> ver' \<noteq> ver)
    \<and> (\<not> c \<longrightarrow> ver' = ver
           \<or> ver' = ver\<lparr>m_status := status_of_text status,
                        m_releaseDate := (if m_releaseDate ver \<noteq> releaseDate \<and> isValid releaseDate
                                          then releaseDate else m_releaseDate ver)\<rparr>)"
proof (cases "status_value (status_of_text status) \<le> status_value (m_status ver)")
  case False
  with assms show ?thesis
    by (simp add: ReleaseVersion_updateUrl_not_accepted)
next
  case True
  note eq = assms [unfolded ReleaseVersion_updateUrl_accepted [OF True]]
  show ?thesis
  proof (cases "update_variants (fromAbbreviation architecture) board url sha256 sz (m_variants ver)")
    case None
    with eq have c and "length (m_variants ver') = Suc (length (m_variants ver))"
      by (auto simp: qlist_insert_def)
    then show ?thesis by auto
  next
    case (Some t)
    obtain c0 vs e3 where t: "t = (c0, vs, e3)" by (cases t) auto
    from eq have c: "c = c0"
      and ver': "ver' = ver\<lparr>m_status := status_of_text status,
                        m_releaseDate := (if m_releaseDate ver \<noteq> releaseDate \<and> isValid releaseDate
                                          then releaseDate else m_releaseDate ver),
                        m_variants := vs\<rparr>"
      unfolding Some t by simp_all
    from update_variants_changed [OF Some [unfolded t]]
    have ch: "(c0 \<longrightarrow> vs \<noteq> m_variants ver) \<and> (\<not> c0 \<longrightarrow> vs = m_variants ver)" .
    show ?thesis
    proof (cases c0)
      case True
      with ch have "m_variants ver' \<noteq> m_variants ver" by (simp add: ver')
      then have "ver' \<noteq> ver" by auto
      with True c show ?thesis by simp
    next
      case False
      with ch have "vs = m_variants ver" by simp
      then have "ver' = ver\<lparr>m_status := status_of_text status,
                        m_releaseDate := (if m_releaseDate ver \<noteq> releaseDate \<and> isValid releaseDate
                                          then releaseDate else m_releaseDate ver)\<rparr>"
        by (simp add: ver')
      with False c show ?thesis by simp
    qed
  qed
qed

lemma update_versions_changed:
  assumes "update_versions version status releaseDate architecture imageType board url sha256 md5 sz vs
             = Some (c, vs', e)"
  shows "(c \<longrightarrow> vs' \<noteq> vs)
    \<and> (\<not> c \<longrightarrow> vs' = vs
          \<or> (\<exists>k < length vs. m_number (vs ! k) = version
                \<and> vs' = vs[k := (vs ! k)\<lparr>m_status := status_of_text status,
                        m_releaseDate := (if m_releaseDate (vs ! k) \<noteq> releaseDate \<and> isValid releaseDate
                                          then releaseDate else m_releaseDate (vs ! k))\<rparr>]))"
proof -
  from assms obtain k v' where k: "first_index (\<lambda>v. m_number v = version) vs = Some k"
    and r: "ReleaseVersion_updateUrl (vs ! k) status releaseDate architecture imageType board url
              sha256 md5 sz = (c, v', e)"
    and vs': "vs' = vs[k := v']"
    by (rule update_versions_Some_index)
  from k have len: "k < length vs" and hit: "m_number (vs ! k) = version"
    by (simp_all add: first_index_Some_iff)
  from ReleaseVersion_updateUrl_changed [OF r]
  have ch: "c \<longrightarrow> v' \<noteq> vs ! k"
    and same: "\<not> c \<longrightarrow> v' = vs ! k
           \<or> v' = (vs ! k)\<lparr>m_status := status_of_text status,
                        m_releaseDate := (if m_releaseDate (vs ! k) \<noteq> releaseDate \<and> isValid releaseDate
                                          then releaseDate else m_releaseDate (vs ! k))\<rparr>"
    by simp_all
  show ?thesis
  proof (cases c)
    case True
    with ch len show ?thesis unfolding vs' by (simp add: list_update_neq)
  next
    case False
    with same have "v' = vs ! k
           \<or> v' = (vs ! k)\<lparr>m_status := status_of_text status,
                        m_releaseDate := (if m_releaseDate (vs ! k) \<noteq> releaseDate \<and> isValid releaseDate
                                          then releaseDate else m_releaseDate (vs ! k))\<rparr>"
      by simp
    then show ?thesis
    proof
      assume "v' = vs ! k"
      then have "vs' = vs" by (simp add: vs')
      with False show ?thesis by simp
    next
      assume "v' = (vs ! k)\<lparr>m_status := status_of_text status,
                        m_releaseDate := (if m_releaseDate (vs ! k) \<noteq> releaseDate \<and> isValid releaseDate
                                          then releaseDate else m_releaseDate (vs ! k))\<rparr>"
      with len hit vs' have "\<exists>k < length vs. m_number (vs ! k) = version
                \<and> vs' = vs[k := (vs ! k)\<lparr>m_status := status_of_text status,
                        m_releaseDate := (if m_releaseDate (vs ! k) \<noteq> releaseDate \<and> isValid releaseDate
                                          then releaseDate else m_releaseDate (vs ! k))\<rparr>]"
        by blast
      with False show ?thesis by simp
    qed
  qed
qed

lemma Release_updateUrl_changed:
  assumes "Release_updateUrl r version status releaseDate architecture imageType board url sha256 md5
             sz = (c, r', e)"
  shows "(c \<longrightarrow> \<not> version < ''0'' \<longrightarrow> r' \<noteq> r)
    \<and> (\<not> c \<longrightarrow> r' = r
          \<or> (\<exists>k < length (m_versions r). m_number (m_versions r ! k) = version
                \<and> r' = r\<lparr>m_versions := (m_versions r)
                     [k := (m_versions r ! k)\<lparr>m_status := status_of_text status,
                        m_releaseDate := (if m_releaseDate (m_versions r ! k) \<noteq> releaseDate
                                             \<and> isValid releaseDate
                                          then releaseDate else m_releaseDate (m_versions r ! k))\<rparr>]\<rparr>))"
proof (cases "update_versions version status releaseDate architecture imageType board url sha256 md5
    sz (m_versions r)")
  case (Some t)
  obtain c0 vs e0 where t: "t = (c0, vs, e0)" by (cases t) auto
  from assms have c: "c = c0" and r': "r' = r\<lparr>m_versions := vs\<rparr>"
    unfolding Release_updateUrl_def Some t by simp_all
  from update_versions_changed [OF Some [unfolded t]]
  have ch: "c0 \<longrightarrow> vs \<noteq> m_versions r"
    and same: "\<not> c0 \<longrightarrow> vs = m_versions r
          \<or> (\<exists>k < length (m_versions r). m_number (m_versions r ! k) = version
                \<and> vs = (m_versions r)
                     [k := (m_versions r ! k)\<lparr>m_status := status_of_text status,
                        m_releaseDate := (if m_releaseDate (m_versions r ! k) \<noteq> releaseDate
                                             \<and> isValid releaseDate
                                          then releaseDate else m_releaseDate (m_versions r ! k))\<rparr>])"
    by simp_all
  show ?thesis
  proof (cases c0)
    case True
    with ch have "m_versions r' \<noteq> m_versions r" by (simp add: r')
    then have "r' \<noteq> r" by auto
    with True c show ?thesis by simp
  next
    case False
    with same c show ?thesis unfolding r' by auto
  qed
next
  case None
  from assms Release_updateUrl_created(1) [OF None] have c: c
    by simp
  have "r' \<noteq> r" if ge: "\<not> version < ''0''"
  proof -
    from None have new: "\<forall>v \<in> set (m_versions r). m_number v \<noteq> version"
      by (simp add: update_versions_None_iff)
    from Release_updateUrl_new_version [OF new ge, of status releaseDate architecture imageType
        board url sha256 md5 sz] assms
    obtain v where "v \<in> set (m_versions r')" "m_number v = version" by auto
    with new have "set (m_versions r') \<noteq> set (m_versions r)" by auto
    then show ?thesis by auto
  qed
  with c show ?thesis by simp
qed

text \<open>
  C2, as the code has it. The value returned by \<open>ReleaseManager::updateUrl\<close> is that of
  the last step of the chain: true after the insertion of a version or of a variant, and
  the variant's own result when the variant exists. The status and the release date, which
  \<open>ReleaseVersion::updateUrl\<close> sets before it reaches the variants, do not enter it. So
  when the merge returns true and the record's number is not below "0", the catalog has
  changed; when it returns false, the catalog is as before except, at most, for the status
  and the release date of one version with the record's number, which are then those of
  the record.
\<close>

theorem updateUrl_return_value:
  assumes "ReleaseManager_updateUrl m name version status releaseDate architecture imageType board
             url sha256 md5 sz = (c, m', e)"
  shows "(c \<longrightarrow> \<not> version < ''0'' \<longrightarrow> m' \<noteq> m)
    \<and> (\<not> c \<longrightarrow> m' = m
          \<or> (\<exists>i < length (m_releases m). \<exists>k < length (m_versions (m_releases m ! i)).
                m_number (m_versions (m_releases m ! i) ! k) = version
                \<and> m' = m\<lparr>m_releases := (m_releases m)
                     [i := (m_releases m ! i)\<lparr>m_versions := (m_versions (m_releases m ! i))
                        [k := (m_versions (m_releases m ! i) ! k)
                           \<lparr>m_status := status_of_text status,
                            m_releaseDate :=
                              (if m_releaseDate (m_versions (m_releases m ! i) ! k) \<noteq> releaseDate
                                  \<and> isValid releaseDate
                               then releaseDate
                               else m_releaseDate (m_versions (m_releases m ! i) ! k))\<rparr>]\<rparr>]\<rparr>))"
proof (cases "isKnown architecture \<and> imageType \<noteq> UNKNOWN_IMAGE_TYPE
    \<and> first_index (\<lambda>r. qcontains (toLower (m_name r)) name) (m_releases m) \<noteq> None")
  case False
  with assms have "m' = m" "\<not> c"
    by (auto simp: ReleaseManager_updateUrl_def split: if_splits)
  then show ?thesis by simp
next
  case True
  then obtain i where known: "isKnown architecture" and ty: "imageType \<noteq> UNKNOWN_IMAGE_TYPE"
    and i: "first_index (\<lambda>r. qcontains (toLower (m_name r)) name) (m_releases m) = Some i"
    by auto
  define r where "r = m_releases m ! i"
  obtain c0 r' e0 where R: "Release_updateUrl r version status releaseDate
      architecture imageType board url sha256 md5 sz = (c0, r', e0)"
    by (cases "Release_updateUrl r version status releaseDate
      architecture imageType board url sha256 md5 sz") auto
  from assms known ty i R have c: "c = c0" and m': "m' = m\<lparr>m_releases := (m_releases m)[i := r']\<rparr>"
    by (simp_all add: ReleaseManager_updateUrl_def r_def)
  from i have len: "i < length (m_releases m)"
    by (simp add: first_index_Some_iff)
  from Release_updateUrl_changed [OF R]
  have ch: "c0 \<longrightarrow> \<not> version < ''0'' \<longrightarrow> r' \<noteq> r"
    and same: "\<not> c0 \<longrightarrow> r' = r
          \<or> (\<exists>k < length (m_versions r). m_number (m_versions r ! k) = version
                \<and> r' = r\<lparr>m_versions := (m_versions r)
                     [k := (m_versions r ! k)\<lparr>m_status := status_of_text status,
                        m_releaseDate := (if m_releaseDate (m_versions r ! k) \<noteq> releaseDate
                                             \<and> isValid releaseDate
                                          then releaseDate else m_releaseDate (m_versions r ! k))\<rparr>]\<rparr>)"
    by simp_all
  have part1: "c \<longrightarrow> \<not> version < ''0'' \<longrightarrow> m' \<noteq> m"
  proof (intro impI)
    assume c and "\<not> version < ''0''"
    with ch c have "r' \<noteq> m_releases m ! i" by (simp add: r_def)
    with len have "(m_releases m)[i := r'] \<noteq> m_releases m" by (rule list_update_neq)
    then have "m_releases m' \<noteq> m_releases m" by (simp add: m')
    then show "m' \<noteq> m" by auto
  qed
  have part2: "m' = m
          \<or> (\<exists>i < length (m_releases m). \<exists>k < length (m_versions (m_releases m ! i)).
                m_number (m_versions (m_releases m ! i) ! k) = version
                \<and> m' = m\<lparr>m_releases := (m_releases m)
                     [i := (m_releases m ! i)\<lparr>m_versions := (m_versions (m_releases m ! i))
                        [k := (m_versions (m_releases m ! i) ! k)
                           \<lparr>m_status := status_of_text status,
                            m_releaseDate :=
                              (if m_releaseDate (m_versions (m_releases m ! i) ! k) \<noteq> releaseDate
                                  \<and> isValid releaseDate
                               then releaseDate
                               else m_releaseDate (m_versions (m_releases m ! i) ! k))\<rparr>]\<rparr>]\<rparr>)"
    if "\<not> c"
  proof -
    from that c same have "r' = r
          \<or> (\<exists>k < length (m_versions r). m_number (m_versions r ! k) = version
                \<and> r' = r\<lparr>m_versions := (m_versions r)
                     [k := (m_versions r ! k)\<lparr>m_status := status_of_text status,
                        m_releaseDate := (if m_releaseDate (m_versions r ! k) \<noteq> releaseDate
                                             \<and> isValid releaseDate
                                          then releaseDate else m_releaseDate (m_versions r ! k))\<rparr>]\<rparr>)"
      by simp
    then show ?thesis
    proof
      assume "r' = r"
      then have "m' = m" by (simp add: m' r_def)
      then show ?thesis by (rule disjI1)
    next
      assume "\<exists>k < length (m_versions r). m_number (m_versions r ! k) = version
                \<and> r' = r\<lparr>m_versions := (m_versions r)
                     [k := (m_versions r ! k)\<lparr>m_status := status_of_text status,
                        m_releaseDate := (if m_releaseDate (m_versions r ! k) \<noteq> releaseDate
                                             \<and> isValid releaseDate
                                          then releaseDate else m_releaseDate (m_versions r ! k))\<rparr>]\<rparr>"
      then obtain k where "k < length (m_versions r)" "m_number (m_versions r ! k) = version"
        "r' = r\<lparr>m_versions := (m_versions r)
                     [k := (m_versions r ! k)\<lparr>m_status := status_of_text status,
                        m_releaseDate := (if m_releaseDate (m_versions r ! k) \<noteq> releaseDate
                                             \<and> isValid releaseDate
                                          then releaseDate else m_releaseDate (m_versions r ! k))\<rparr>]\<rparr>"
        by blast
      with len m' show ?thesis
        unfolding r_def by blast
    qed
  qed
  from part1 part2 show ?thesis by blast
qed

theorem updateUrl_return_value_witness:
  "fst (snd (ReleaseManager_updateUrl (example_manager [example_release ''alt-workstation'' []])
          ''alt-workstation'' ''9'' ''0'' InvalidDateTime ''x86-64'' ISO ''PC''
          ''http://getalt.org/image.iso'' [] [] 0))
     \<noteq> example_manager [example_release ''alt-workstation'' []]
   \<and> (fst (snd (ReleaseManager_updateUrl
          (example_manager [example_release ''alt-workstation'' [example_version ''9'' BETA X86_64]])
          ''alt-workstation'' ''9'' ''0'' InvalidDateTime ''x86-64'' ISO ''PC''
          ''http://getalt.org/image.iso'' [] [] 0))
        = example_manager [example_release ''alt-workstation'' [example_version ''9'' BETA X86_64]]
      \<or> (\<exists>i < length (m_releases (example_manager
                  [example_release ''alt-workstation'' [example_version ''9'' BETA X86_64]])).
           \<exists>k < length (m_versions (m_releases (example_manager
                  [example_release ''alt-workstation'' [example_version ''9'' BETA X86_64]]) ! i)).
             m_number (m_versions (m_releases (example_manager
                  [example_release ''alt-workstation'' [example_version ''9'' BETA X86_64]]) ! i) ! k)
               = ''9''
             \<and> fst (snd (ReleaseManager_updateUrl
                  (example_manager
                     [example_release ''alt-workstation'' [example_version ''9'' BETA X86_64]])
                  ''alt-workstation'' ''9'' ''0'' InvalidDateTime ''x86-64'' ISO ''PC''
                  ''http://getalt.org/image.iso'' [] [] 0))
               = example_manager
                   [example_release ''alt-workstation'' [example_version ''9'' FINAL X86_64]]))"
proof -
  define M0 where "M0 = example_manager [example_release ''alt-workstation'' []]"
  define MB where "MB = example_manager
     [example_release ''alt-workstation'' [example_version ''9'' BETA X86_64]]"
  define R1 where "R1 = ReleaseManager_updateUrl M0
          ''alt-workstation'' ''9'' ''0'' InvalidDateTime ''x86-64'' ISO ''PC''
          ''http://getalt.org/image.iso'' [] [] 0"
  define R2 where "R2 = ReleaseManager_updateUrl MB
          ''alt-workstation'' ''9'' ''0'' InvalidDateTime ''x86-64'' ISO ''PC''
          ''http://getalt.org/image.iso'' [] [] 0"
  have e1: "ReleaseManager_updateUrl M0
          ''alt-workstation'' ''9'' ''0'' InvalidDateTime ''x86-64'' ISO ''PC''
          ''http://getalt.org/image.iso'' [] [] 0 = (fst R1, fst (snd R1), snd (snd R1))"
    by (simp add: R1_def)
  have e2: "ReleaseManager_updateUrl MB
          ''alt-workstation'' ''9'' ''0'' InvalidDateTime ''x86-64'' ISO ''PC''
          ''http://getalt.org/image.iso'' [] [] 0 = (fst R2, fst (snd R2), snd (snd R2))"
    by (simp add: R2_def)
  have c1: "fst R1" unfolding R1_def M0_def by code_simp
  have ge: "\<not> ''9'' < ''0''" by simp
  have c2: "\<not> fst R2" unfolding R2_def MB_def by code_simp
  have w1: "fst (snd R1) \<noteq> M0"
    using c1 ge by (rule updateUrl_return_value [OF e1, THEN conjunct1, rule_format])
  have r2: "fst (snd R2) = example_manager
                   [example_release ''alt-workstation'' [example_version ''9'' FINAL X86_64]]"
    unfolding R2_def MB_def by code_simp
  have "fst (snd R2) = MB
      \<or> (\<exists>i < length (m_releases MB). \<exists>k < length (m_versions (m_releases MB ! i)).
            m_number (m_versions (m_releases MB ! i) ! k) = ''9''
            \<and> fst (snd R2) = MB\<lparr>m_releases := (m_releases MB)
                     [i := (m_releases MB ! i)\<lparr>m_versions := (m_versions (m_releases MB ! i))
                        [k := (m_versions (m_releases MB ! i) ! k)
                           \<lparr>m_status := status_of_text ''0'',
                            m_releaseDate :=
                              (if m_releaseDate (m_versions (m_releases MB ! i) ! k) \<noteq> InvalidDateTime
                                  \<and> isValid InvalidDateTime
                               then InvalidDateTime
                               else m_releaseDate (m_versions (m_releases MB ! i) ! k))\<rparr>]\<rparr>]\<rparr>)"
    using c2 by (rule updateUrl_return_value [OF e2, THEN conjunct2, rule_format])
  then have w2: "fst (snd R2) = MB
      \<or> (\<exists>i < length (m_releases MB). \<exists>k < length (m_versions (m_releases MB ! i)).
            m_number (m_versions (m_releases MB ! i) ! k) = ''9''
            \<and> fst (snd R2) = example_manager
                   [example_release ''alt-workstation'' [example_version ''9'' FINAL X86_64]])"
    unfolding r2 [symmetric] by (elim disjE exE conjE) (rule disjI1, assumption, rule disjI2, blast)
  from w1 w2 show ?thesis
    unfolding R1_def R2_def M0_def MB_def by (rule conjI)
qed

theorem updateUrl_return_value_counterexample:
  "ReleaseManager_updateUrl
     (example_manager [example_release ''alt-workstation'' [example_version ''9'' BETA X86_64]])
     ''alt-workstation'' ''9'' ''0'' InvalidDateTime ''x86-64'' ISO ''PC''
     ''http://getalt.org/image.iso'' [] [] 0
   = (False,
      example_manager [example_release ''alt-workstation'' [example_version ''9'' FINAL X86_64]],
      [statusChanged, prereleaseChanged])
   \<and> example_manager [example_release ''alt-workstation'' [example_version ''9'' FINAL X86_64]]
     \<noteq> example_manager [example_release ''alt-workstation'' [example_version ''9'' BETA X86_64]]"
  by code_simp

subsection \<open>The UNKNOWN architecture\<close>

lemma ReleaseVariant_updateUrl_stored:
  assumes "ReleaseVariant_updateUrl v url sha256 sz = (c, v', e)"
  shows "(url \<noteq> [] \<longrightarrow> trimmed (m_url v') = trimmed url)
    \<and> (sha256 \<noteq> [] \<longrightarrow> trimmed (m_shaHash v') = trimmed sha256)
    \<and> (sz \<noteq> 0 \<longrightarrow> m_size v' = sz)"
  using assms by (auto simp: ReleaseVariant_updateUrl_def Let_def split: if_splits)

lemma ReleaseVersion_updateUrl_stores:
  assumes acc: "status_value (status_of_text status) \<le> status_value (m_status ver)"
    and res: "ReleaseVersion_updateUrl ver status releaseDate architecture imageType board url sha256
             md5 sz = (c, ver', e)"
  shows "m_number ver' = m_number ver \<and> m_status ver' = status_of_text status
    \<and> (\<exists>x \<in> set (m_variants ver').
          m_arch x = fromAbbreviation architecture \<and> m_board x = board
          \<and> (url \<noteq> [] \<longrightarrow> trimmed (m_url x) = trimmed url)
          \<and> (sha256 \<noteq> [] \<longrightarrow> trimmed (m_shaHash x) = trimmed sha256)
          \<and> (sz \<noteq> 0 \<longrightarrow> m_size x = sz))"
proof -
  note eq = res [unfolded ReleaseVersion_updateUrl_accepted [OF acc]]
  show ?thesis
  proof (cases "update_variants (fromAbbreviation architecture) board url sha256 sz (m_variants ver)")
    case None
    define y where "y = ReleaseVariant_new url sha256 md5 sz (fromAbbreviation architecture)
                       imageType board"
    from eq have num: "m_number ver' = m_number ver" and st: "m_status ver' = status_of_text status"
      and vs: "m_variants ver' = qlist_insert (variant_order (fromAbbreviation architecture)
                 (m_variants ver)) y (m_variants ver)"
      unfolding None y_def by auto
    have "y \<in> set (m_variants ver')" by (simp add: vs set_qlist_insert)
    moreover have "m_arch y = fromAbbreviation architecture \<and> m_board y = board
          \<and> m_url y = url \<and> m_shaHash y = sha256 \<and> m_size y = sz"
      by (simp add: y_def ReleaseVariant_new_def)
    ultimately show ?thesis using num st by auto
  next
    case (Some t)
    obtain c0 vs e3 where t: "t = (c0, vs, e3)" by (cases t) auto
    from eq have num: "m_number ver' = m_number ver" and st: "m_status ver' = status_of_text status"
      and vs: "m_variants ver' = vs"
      unfolding Some t by auto
    from Some [unfolded t] obtain j v'
      where j: "first_index (\<lambda>x. m_arch x = fromAbbreviation architecture \<and> m_board x = board)
                  (m_variants ver) = Some j"
        and r: "ReleaseVariant_updateUrl (m_variants ver ! j) url sha256 sz = (c0, v', e3)"
        and upd: "vs = (m_variants ver)[j := v']"
      by (rule update_variants_Some_index)
    from j have len: "j < length (m_variants ver)"
      and hit: "m_arch (m_variants ver ! j) = fromAbbreviation architecture
                  \<and> m_board (m_variants ver ! j) = board"
      by (simp_all add: first_index_Some_iff)
    from len have "v' \<in> set (m_variants ver')"
      unfolding vs upd by (rule set_update_memI)
    moreover from ReleaseVariant_updateUrl_key [OF r] hit
    have "m_arch v' = fromAbbreviation architecture \<and> m_board v' = board" by simp
    moreover note ReleaseVariant_updateUrl_stored [OF r]
    ultimately show ?thesis using num st by blast
  qed
qed

lemma ReleaseManager_updateUrl_existing_version:
  assumes known: "isKnown architecture" and ty: "imageType \<noteq> UNKNOWN_IMAGE_TYPE"
    and i: "first_index (\<lambda>r. qcontains (toLower (m_name r)) name) (m_releases m) = Some i"
    and k: "first_index (\<lambda>v. m_number v = version) (m_versions (m_releases m ! i)) = Some k"
    and R: "ReleaseVersion_updateUrl (m_versions (m_releases m ! i) ! k) status releaseDate
              architecture imageType board url sha256 md5 sz = (c, ver', e)"
  shows "ReleaseManager_updateUrl m name version status releaseDate architecture imageType board url
           sha256 md5 sz
         = (c, m\<lparr>m_releases := (m_releases m)
                  [i := (m_releases m ! i)\<lparr>m_versions :=
                           (m_versions (m_releases m ! i))[k := ver']\<rparr>]\<rparr>, e)"
proof -
  have "update_versions version status releaseDate architecture imageType board url sha256 md5 sz
          (m_versions (m_releases m ! i))
        = Some (c, (m_versions (m_releases m ! i))[k := ver'], e)"
    by (simp add: update_versions_first_index [OF k] R)
  then have "Release_updateUrl (m_releases m ! i) version status releaseDate architecture imageType
               board url sha256 md5 sz
        = (c, (m_releases m ! i)\<lparr>m_versions := (m_versions (m_releases m ! i))[k := ver']\<rparr>, e)"
    by (simp add: Release_updateUrl_def)
  with known ty i show ?thesis
    by (simp add: ReleaseManager_updateUrl_def)
qed

text \<open>
  C10. The last registry entry, UNKNOWN, has the abbreviations "" and "unknown". So
  \<open>isKnown\<close> holds of both, \<open>fromAbbreviation\<close> sends both to the UNKNOWN entry, and
  \<open>fromFilename\<close> returns an entry for every file name, since every string contains "".
  A record whose architecture is "" or "unknown", with a known image type and a name that
  selects release \<open>i\<close>, is therefore not stopped by the first check of
  \<open>ReleaseManager::updateUrl\<close>: the result is that of the release's own merge, and the
  record is stored under the UNKNOWN architecture on both paths of that merge.
  When the release has no version with the record's number (and the number is not below
  "0", so that the eviction scan cannot pick it), the merge returns true and the release
  then holds a version with that number whose single variant is the one made from the
  record, with the UNKNOWN architecture.
  When version \<open>k\<close> is the first with the record's number and the record's status is at
  least as final as the version's (otherwise the record is refused for its status, not for
  its architecture), the version keeps its number, takes the record's status, and then
  holds a variant with the UNKNOWN architecture and the record's board that carries the
  record's data: its url and hash equal the record's up to trimming when the record's are
  not empty, and its size is the record's when that is not zero.
\<close>

theorem unknown_architecture_accepted:
  "isKnown '''' \<and> isKnown ''unknown''
   \<and> fromAbbreviation '''' = Some UNKNOWN \<and> fromAbbreviation ''unknown'' = Some UNKNOWN
   \<and> fromFilename filename \<noteq> None
   \<and> (architecture = '''' \<or> architecture = ''unknown'' \<longrightarrow>
       imageType \<noteq> UNKNOWN_IMAGE_TYPE \<longrightarrow>
       first_index (\<lambda>r. qcontains (toLower (m_name r)) name) (m_releases m) = Some i \<longrightarrow>
         ReleaseManager_updateUrl m name version status releaseDate architecture imageType board url
             sha256 md5 sz
           = (case Release_updateUrl (m_releases m ! i) version status releaseDate architecture
                     imageType board url sha256 md5 sz of
                (c, r', e) \<Rightarrow> (c, m\<lparr>m_releases := (m_releases m)[i := r']\<rparr>, e))
         \<and> ((\<forall>v \<in> set (m_versions (m_releases m ! i)). m_number v \<noteq> version) \<longrightarrow>
            \<not> version < ''0'' \<longrightarrow>
              fst (ReleaseManager_updateUrl m name version status releaseDate architecture
                     imageType board url sha256 md5 sz)
              \<and> (\<exists>v \<in> set (m_versions (m_releases (fst (snd (ReleaseManager_updateUrl m name
                                version status releaseDate architecture imageType board url sha256
                                md5 sz))) ! i)).
                    m_number v = version \<and> map m_arch (m_variants v) = [Some UNKNOWN]
                    \<and> m_variants v
                        = [ReleaseVariant_new url sha256 md5 sz (Some UNKNOWN) imageType board]))
         \<and> (first_index (\<lambda>v. m_number v = version) (m_versions (m_releases m ! i)) = Some k \<longrightarrow>
            status_value (status_of_text status)
              \<le> status_value (m_status (m_versions (m_releases m ! i) ! k)) \<longrightarrow>
              m_number (m_versions (m_releases (fst (snd (ReleaseManager_updateUrl m name version
                  status releaseDate architecture imageType board url sha256 md5 sz))) ! i) ! k)
                = version
              \<and> m_status (m_versions (m_releases (fst (snd (ReleaseManager_updateUrl m name version
                  status releaseDate architecture imageType board url sha256 md5 sz))) ! i) ! k)
                = status_of_text status
              \<and> (\<exists>x \<in> set (m_variants (m_versions (m_releases (fst (snd (ReleaseManager_updateUrl
                                m name version status releaseDate architecture imageType board url
                                sha256 md5 sz))) ! i) ! k)).
                    m_arch x = Some UNKNOWN \<and> m_board x = board
                    \<and> (url \<noteq> [] \<longrightarrow> trimmed (m_url x) = trimmed url)
                    \<and> (sha256 \<noteq> [] \<longrightarrow> trimmed (m_shaHash x) = trimmed sha256)
                    \<and> (sz \<noteq> 0 \<longrightarrow> m_size x = sz))))"
proof -
  have k1: "isKnown ''''" by code_simp
  have k2: "isKnown ''unknown''" by code_simp
  have a1: "fromAbbreviation '''' = Some UNKNOWN" by code_simp
  have a2: "fromAbbreviation ''unknown'' = Some UNKNOWN" by code_simp
  have merge: "ReleaseManager_updateUrl m name version status releaseDate architecture imageType board
             url sha256 md5 sz
           = (case Release_updateUrl (m_releases m ! i) version status releaseDate architecture
                     imageType board url sha256 md5 sz of
                (c, r', e) \<Rightarrow> (c, m\<lparr>m_releases := (m_releases m)[i := r']\<rparr>, e))"
    if arch: "architecture = '''' \<or> architecture = ''unknown''"
      and ty: "imageType \<noteq> UNKNOWN_IMAGE_TYPE"
      and idx: "first_index (\<lambda>r. qcontains (toLower (m_name r)) name) (m_releases m) = Some i"
  proof -
    from arch k1 k2 have "isKnown architecture" by auto
    with ty idx show ?thesis by (simp add: ReleaseManager_updateUrl_def)
  qed
  have inserted: "fst (ReleaseManager_updateUrl m name version status releaseDate architecture
                     imageType board url sha256 md5 sz)
              \<and> (\<exists>v \<in> set (m_versions (m_releases (fst (snd (ReleaseManager_updateUrl m name
                                version status releaseDate architecture imageType board url sha256
                                md5 sz))) ! i)).
                    m_number v = version \<and> map m_arch (m_variants v) = [Some UNKNOWN]
                    \<and> m_variants v
                        = [ReleaseVariant_new url sha256 md5 sz (Some UNKNOWN) imageType board])"
    if arch: "architecture = '''' \<or> architecture = ''unknown''"
      and ty: "imageType \<noteq> UNKNOWN_IMAGE_TYPE"
      and idx: "first_index (\<lambda>r. qcontains (toLower (m_name r)) name) (m_releases m) = Some i"
      and new: "\<forall>v \<in> set (m_versions (m_releases m ! i)). m_number v \<noteq> version"
      and ge: "\<not> version < ''0''"
  proof -
    from arch a1 a2 have ab: "fromAbbreviation architecture = Some UNKNOWN" by auto
    from idx have len: "i < length (m_releases m)" by (simp add: first_index_Some_iff)
    obtain c r' e where R: "Release_updateUrl (m_releases m ! i) version status releaseDate
        architecture imageType board url sha256 md5 sz = (c, r', e)"
      by (cases "Release_updateUrl (m_releases m ! i) version status releaseDate
        architecture imageType board url sha256 md5 sz") auto
    from Release_updateUrl_new_version [OF new ge, of status releaseDate architecture imageType
        board url sha256 md5 sz] R
    have c: "c" and v: "\<exists>v \<in> set (m_versions r'). m_number v = version
        \<and> m_variants v = [ReleaseVariant_new url sha256 md5 sz (Some UNKNOWN) imageType board]"
      by (auto simp: ab)
    from v have "\<exists>v \<in> set (m_versions r'). m_number v = version
        \<and> map m_arch (m_variants v) = [Some UNKNOWN]
        \<and> m_variants v = [ReleaseVariant_new url sha256 md5 sz (Some UNKNOWN) imageType board]"
      by (auto simp: ReleaseVariant_new_def)
    with c len show ?thesis
      by (simp add: merge [OF arch ty idx] R)
  qed
  have existing: "m_number (m_versions (m_releases (fst (snd (ReleaseManager_updateUrl m name version
                  status releaseDate architecture imageType board url sha256 md5 sz))) ! i) ! k)
                = version
              \<and> m_status (m_versions (m_releases (fst (snd (ReleaseManager_updateUrl m name version
                  status releaseDate architecture imageType board url sha256 md5 sz))) ! i) ! k)
                = status_of_text status
              \<and> (\<exists>x \<in> set (m_variants (m_versions (m_releases (fst (snd (ReleaseManager_updateUrl
                                m name version status releaseDate architecture imageType board url
                                sha256 md5 sz))) ! i) ! k)).
                    m_arch x = Some UNKNOWN \<and> m_board x = board
                    \<and> (url \<noteq> [] \<longrightarrow> trimmed (m_url x) = trimmed url)
                    \<and> (sha256 \<noteq> [] \<longrightarrow> trimmed (m_shaHash x) = trimmed sha256)
                    \<and> (sz \<noteq> 0 \<longrightarrow> m_size x = sz))"
    if arch: "architecture = '''' \<or> architecture = ''unknown''"
      and ty: "imageType \<noteq> UNKNOWN_IMAGE_TYPE"
      and idx: "first_index (\<lambda>r. qcontains (toLower (m_name r)) name) (m_releases m) = Some i"
      and k: "first_index (\<lambda>v. m_number v = version) (m_versions (m_releases m ! i)) = Some k"
      and acc: "status_value (status_of_text status)
              \<le> status_value (m_status (m_versions (m_releases m ! i) ! k))"
  proof -
    from arch a1 a2 have ab: "fromAbbreviation architecture = Some UNKNOWN" by auto
    from arch k1 k2 have known: "isKnown architecture" by auto
    from idx have len: "i < length (m_releases m)" by (simp add: first_index_Some_iff)
    from k have klen: "k < length (m_versions (m_releases m ! i))"
      and num: "m_number (m_versions (m_releases m ! i) ! k) = version"
      by (simp_all add: first_index_Some_iff)
    obtain c ver' e where R: "ReleaseVersion_updateUrl (m_versions (m_releases m ! i) ! k) status
        releaseDate architecture imageType board url sha256 md5 sz = (c, ver', e)"
      by (cases "ReleaseVersion_updateUrl (m_versions (m_releases m ! i) ! k) status
        releaseDate architecture imageType board url sha256 md5 sz") auto
    have at: "m_versions (m_releases (fst (snd (ReleaseManager_updateUrl m name version
                  status releaseDate architecture imageType board url sha256 md5 sz))) ! i) ! k
              = ver'"
      using len klen
      by (simp add: ReleaseManager_updateUrl_existing_version [OF known ty idx k R])
    from ReleaseVersion_updateUrl_stores [OF acc R] num show ?thesis
      unfolding at ab by simp
  qed
  from k1 k2 a1 a2 fromFilename_not_None [of filename] merge inserted existing show ?thesis
    by blast
qed

theorem unknown_architecture_accepted_witness:
  "fromFilename ''alt-workstation-9.iso'' \<noteq> None
   \<and> fst (ReleaseManager_updateUrl (example_manager [example_release ''alt-workstation'' []])
            ''alt-workstation'' ''9'' ''0'' InvalidDateTime '''' ISO ''PC''
            ''http://getalt.org/image.iso'' [] [] 0)
   \<and> (\<exists>v \<in> set (m_versions (m_releases (fst (snd (ReleaseManager_updateUrl
                 (example_manager [example_release ''alt-workstation'' []])
                 ''alt-workstation'' ''9'' ''0'' InvalidDateTime '''' ISO ''PC''
                 ''http://getalt.org/image.iso'' [] [] 0))) ! 0)).
         m_number v = ''9'' \<and> map m_arch (m_variants v) = [Some UNKNOWN])
   \<and> (\<exists>x \<in> set (m_variants (m_versions (m_releases (fst (snd (ReleaseManager_updateUrl
                 (example_manager
                    [example_release ''alt-workstation'' [example_version ''9'' FINAL X86_64]])
                 ''alt-workstation'' ''9'' ''0'' InvalidDateTime ''unknown'' ISO ''PC''
                 ''http://getalt.org/unknown.iso'' ''abc'' [] 7))) ! 0) ! 0)).
         m_arch x = Some UNKNOWN \<and> m_board x = ''PC''
         \<and> trimmed (m_url x) = trimmed ''http://getalt.org/unknown.iso''
         \<and> trimmed (m_shaHash x) = trimmed ''abc'' \<and> m_size x = 7)
   \<and> map m_arch (m_variants (m_versions (m_releases (fst (snd (ReleaseManager_updateUrl
                 (example_manager
                    [example_release ''alt-workstation'' [example_version ''9'' FINAL X86_64]])
                 ''alt-workstation'' ''9'' ''0'' InvalidDateTime ''unknown'' ISO ''PC''
                 ''http://getalt.org/unknown.iso'' ''abc'' [] 7))) ! 0) ! 0))
       = [Some X86_64, Some UNKNOWN]"
proof -
  define M0 where "M0 = example_manager [example_release ''alt-workstation'' []]"
  define M9 where "M9 = example_manager
     [example_release ''alt-workstation'' [example_version ''9'' FINAL X86_64]]"
  note thm0 = unknown_architecture_accepted [where filename = "''alt-workstation-9.iso''"
      and architecture = "''''" and imageType = ISO and name = "''alt-workstation''" and m = M0
      and i = 0 and version = "''9''" and status = "''0''" and releaseDate = InvalidDateTime
      and board = "''PC''" and url = "''http://getalt.org/image.iso''" and ?sha256.0 = "[]"
      and ?md5.0 = "[]" and sz = 0 and k = 0]
  note thm9 = unknown_architecture_accepted [where filename = "''alt-workstation-9.iso''"
      and architecture = "''unknown''" and imageType = ISO and name = "''alt-workstation''"
      and m = M9 and i = 0 and version = "''9''" and status = "''0''"
      and releaseDate = InvalidDateTime and board = "''PC''"
      and url = "''http://getalt.org/unknown.iso''" and ?sha256.0 = "''abc''" and ?md5.0 = "[]"
      and sz = 7 and k = 0]
  have ty: "ISO \<noteq> UNKNOWN_IMAGE_TYPE" by simp
  have arch0: "'''' = '''' \<or> '''' = ''unknown''" by simp
  have arch9: "''unknown'' = '''' \<or> ''unknown'' = ''unknown''" by simp
  have idx0: "first_index (\<lambda>r. qcontains (toLower (m_name r)) ''alt-workstation'') (m_releases M0)
                = Some 0"
    unfolding M0_def by code_simp
  have idx9: "first_index (\<lambda>r. qcontains (toLower (m_name r)) ''alt-workstation'') (m_releases M9)
                = Some 0"
    unfolding M9_def by code_simp
  have new: "\<forall>v \<in> set (m_versions (m_releases M0 ! 0)). m_number v \<noteq> ''9''"
    by (simp add: M0_def example_manager_def example_release_def Release_new_def)
  have ge: "\<not> ''9'' < ''0''" by simp
  have k: "first_index (\<lambda>v. m_number v = ''9'') (m_versions (m_releases M9 ! 0)) = Some 0"
    unfolding M9_def by code_simp
  have acc: "status_value (status_of_text ''0'')
               \<le> status_value (m_status (m_versions (m_releases M9 ! 0) ! 0))"
    unfolding M9_def by code_simp
  have w1: "fromFilename ''alt-workstation-9.iso'' \<noteq> None"
    by (rule thm0 [THEN conjunct2, THEN conjunct2, THEN conjunct2, THEN conjunct2, THEN conjunct1])
  note rest0 = thm0 [THEN conjunct2, THEN conjunct2, THEN conjunct2, THEN conjunct2,
      THEN conjunct2, rule_format, OF arch0 ty idx0]
  note rest9 = thm9 [THEN conjunct2, THEN conjunct2, THEN conjunct2, THEN conjunct2,
      THEN conjunct2, rule_format, OF arch9 ty idx9]
  have ins: "fst (ReleaseManager_updateUrl M0 ''alt-workstation'' ''9'' ''0'' InvalidDateTime ''''
                ISO ''PC'' ''http://getalt.org/image.iso'' [] [] 0)
      \<and> (\<exists>v \<in> set (m_versions (m_releases (fst (snd (ReleaseManager_updateUrl M0
                 ''alt-workstation'' ''9'' ''0'' InvalidDateTime '''' ISO ''PC''
                 ''http://getalt.org/image.iso'' [] [] 0))) ! 0)).
            m_number v = ''9'' \<and> map m_arch (m_variants v) = [Some UNKNOWN]
            \<and> m_variants v
                = [ReleaseVariant_new ''http://getalt.org/image.iso'' [] [] 0 (Some UNKNOWN) ISO ''PC''])"
    using new [rule_format] ge
    by (rule rest0 [THEN conjunct2, THEN conjunct1, rule_format])
  from ins have w2: "fst (ReleaseManager_updateUrl M0 ''alt-workstation'' ''9'' ''0'' InvalidDateTime ''''
                ISO ''PC'' ''http://getalt.org/image.iso'' [] [] 0)"
    by (rule conjunct1)
  from ins obtain v where v: "v \<in> set (m_versions (m_releases (fst (snd (ReleaseManager_updateUrl M0
                 ''alt-workstation'' ''9'' ''0'' InvalidDateTime '''' ISO ''PC''
                 ''http://getalt.org/image.iso'' [] [] 0))) ! 0))"
    and pv: "m_number v = ''9''" "map m_arch (m_variants v) = [Some UNKNOWN]"
    by (elim conjE bexE)
  from v pv have w3: "\<exists>v \<in> set (m_versions (m_releases (fst (snd (ReleaseManager_updateUrl M0
                 ''alt-workstation'' ''9'' ''0'' InvalidDateTime '''' ISO ''PC''
                 ''http://getalt.org/image.iso'' [] [] 0))) ! 0)).
            m_number v = ''9'' \<and> map m_arch (m_variants v) = [Some UNKNOWN]"
    by (intro bexI [of _ v] conjI)
  have ex: "m_number (m_versions (m_releases (fst (snd (ReleaseManager_updateUrl M9
                 ''alt-workstation'' ''9'' ''0'' InvalidDateTime ''unknown'' ISO ''PC''
                 ''http://getalt.org/unknown.iso'' ''abc'' [] 7))) ! 0) ! 0) = ''9''
      \<and> m_status (m_versions (m_releases (fst (snd (ReleaseManager_updateUrl M9
                 ''alt-workstation'' ''9'' ''0'' InvalidDateTime ''unknown'' ISO ''PC''
                 ''http://getalt.org/unknown.iso'' ''abc'' [] 7))) ! 0) ! 0) = status_of_text ''0''
      \<and> (\<exists>x \<in> set (m_variants (m_versions (m_releases (fst (snd (ReleaseManager_updateUrl M9
                 ''alt-workstation'' ''9'' ''0'' InvalidDateTime ''unknown'' ISO ''PC''
                 ''http://getalt.org/unknown.iso'' ''abc'' [] 7))) ! 0) ! 0)).
            m_arch x = Some UNKNOWN \<and> m_board x = ''PC''
            \<and> (''http://getalt.org/unknown.iso'' \<noteq> [] \<longrightarrow>
                 trimmed (m_url x) = trimmed ''http://getalt.org/unknown.iso'')
            \<and> (''abc'' \<noteq> [] \<longrightarrow> trimmed (m_shaHash x) = trimmed ''abc'')
            \<and> ((7::int) \<noteq> 0 \<longrightarrow> m_size x = 7))"
    using k acc
    by (rule rest9 [THEN conjunct2, THEN conjunct2, rule_format])
  then obtain x where x: "x \<in> set (m_variants (m_versions (m_releases (fst (snd
                 (ReleaseManager_updateUrl M9
                 ''alt-workstation'' ''9'' ''0'' InvalidDateTime ''unknown'' ISO ''PC''
                 ''http://getalt.org/unknown.iso'' ''abc'' [] 7))) ! 0) ! 0))"
    and p: "m_arch x = Some UNKNOWN" "m_board x = ''PC''"
      "''http://getalt.org/unknown.iso'' \<noteq> [] \<longrightarrow>
                 trimmed (m_url x) = trimmed ''http://getalt.org/unknown.iso''"
      "''abc'' \<noteq> [] \<longrightarrow> trimmed (m_shaHash x) = trimmed ''abc''"
      "(7::int) \<noteq> 0 \<longrightarrow> m_size x = 7"
    by (elim conjE bexE)
  from p have q: "trimmed (m_url x) = trimmed ''http://getalt.org/unknown.iso''"
      "trimmed (m_shaHash x) = trimmed ''abc''" "m_size x = 7"
    by simp_all
  from x p(1,2) q have w4: "\<exists>x \<in> set (m_variants (m_versions (m_releases (fst (snd
                 (ReleaseManager_updateUrl M9
                 ''alt-workstation'' ''9'' ''0'' InvalidDateTime ''unknown'' ISO ''PC''
                 ''http://getalt.org/unknown.iso'' ''abc'' [] 7))) ! 0) ! 0)).
         m_arch x = Some UNKNOWN \<and> m_board x = ''PC''
         \<and> trimmed (m_url x) = trimmed ''http://getalt.org/unknown.iso''
         \<and> trimmed (m_shaHash x) = trimmed ''abc'' \<and> m_size x = 7"
    by (intro bexI [of _ x] conjI)
  have w5: "map m_arch (m_variants (m_versions (m_releases (fst (snd (ReleaseManager_updateUrl M9
                 ''alt-workstation'' ''9'' ''0'' InvalidDateTime ''unknown'' ISO ''PC''
                 ''http://getalt.org/unknown.iso'' ''abc'' [] 7))) ! 0) ! 0))
       = [Some X86_64, Some UNKNOWN]"
    unfolding M9_def by code_simp
  from w1 w2 w3 w4 w5 show ?thesis
    unfolding M0_def M9_def by (intro conjI)
qed

end
